theory Spec2Isabelle
  imports Main "HOL-Library.Sublist" "HOL-Library.List_Lexorder"
begin

section \<open>Python strings\<close>

text \<open>
  A Python \<open>str\<close> is a sequence of Unicode code points: \<open>len\<close> and slicing count code
  points and comparison is lexicographic on them. A string is therefore a list of
  natural numbers; \<open>str\<close> turns an ASCII literal into its code points.
\<close>

type_synonym pystr = "nat list"

definition str :: "string \<Rightarrow> pystr" where
  "str s = map of_char s"

text \<open>The characters \<open>str.isspace\<close> accepts, which \<open>str.strip()\<close> removes at both ends.\<close>

definition isspace :: "nat \<Rightarrow> bool" where
  "isspace c \<longleftrightarrow>
     (9 \<le> c \<and> c \<le> 13) \<or> (28 \<le> c \<and> c \<le> 32) \<or> c = 133 \<or> c = 160 \<or> c = 5760 \<or>
     (8192 \<le> c \<and> c \<le> 8202) \<or> c = 8232 \<or> c = 8233 \<or> c = 8239 \<or> c = 8287 \<or> c = 12288"

definition strip :: "pystr \<Rightarrow> pystr" where
  "strip s = rev (dropWhile isspace (rev (dropWhile isspace s)))"

text \<open>\<open>s.split(sep)\<close> for a separator of one character: always at least one piece.\<close>

fun split_on :: "nat \<Rightarrow> pystr \<Rightarrow> pystr list" where
  "split_on sep [] = [[]]"
| "split_on sep (c # cs) =
     (if c = sep then [] # split_on sep cs
      else (case split_on sep cs of
              [] \<Rightarrow> [[c]]
            | l # ls \<Rightarrow> (c # l) # ls))"

text \<open>\<open>sep.join(parts)\<close>.\<close>

fun join :: "pystr \<Rightarrow> pystr list \<Rightarrow> pystr" where
  "join sep [] = []"
| "join sep [p] = p"
| "join sep (p # q # ps) = p @ sep @ join sep (q # ps)"

text \<open>\<open>w in s\<close> on strings: \<open>w\<close> occurs in \<open>s\<close> as a contiguous run.\<close>

fun contains :: "pystr \<Rightarrow> pystr \<Rightarrow> bool" where
  "contains [] w = (w = [])"
| "contains (c # cs) w = (prefix w (c # cs) \<or> contains cs w)"

text \<open>
  \<open>str.lower()\<close>. An ASCII letter is lowered by adding 32 and every other ASCII
  character is kept. What a code point from 128 on becomes is given by Unicode's
  case tables, which may look at the neighbours (final sigma) and may yield several
  code points; the tables are the parameter \<open>U\<close>, applied to the whole
  string and the position.
\<close>

type_synonym unicode_lower = "pystr \<Rightarrow> nat \<Rightarrow> pystr"

definition ascii_lower :: "nat \<Rightarrow> nat" where
  "ascii_lower c = (if 65 \<le> c \<and> c \<le> 90 then c + 32 else c)"

definition lower :: "unicode_lower \<Rightarrow> pystr \<Rightarrow> pystr" where
  "lower U s =
     concat (map (\<lambda>(i, c). if c < 128 then [ascii_lower c] else U s i) (enumerate 0 s))"

text \<open>Truth value of an \<open>Optional[str]\<close>: \<open>None\<close> and the empty string are false.\<close>

definition truthy :: "pystr option \<Rightarrow> bool" where
  "truthy v = (case v of None \<Rightarrow> False | Some s \<Rightarrow> s \<noteq> [])"

datatype error =
  AttributeError | TypeError | KeyError | FileNotFoundError | PermissionError | OSError |
  JSONDecodeError | UnicodeEncodeError

text \<open>
  \<open>print(text)\<close> encodes the text for stdout and raises \<open>UnicodeEncodeError\<close> at a
  character the encoding of stdout has no form for. ASCII text goes through every
  encoding; which code points from 128 on the encoding of stdout has is a parameter
  (for UTF-8 all but the surrogates, for \<open>ascii\<close> none). The stream itself is taken
  to be open, so that the encoding is all a print can fail on.
\<close>

type_synonym encoding = "nat \<Rightarrow> bool"

definition printable :: "encoding \<Rightarrow> pystr \<Rightarrow> bool" where
  "printable enc text = list_all (\<lambda>c. c < 128 \<or> enc c) text"

text \<open>
  A file opened with \<open>encoding="utf-8"\<close> takes every string but one that holds a
  surrogate; writing such a string raises \<open>UnicodeEncodeError\<close>.
\<close>

definition surrogate :: "nat \<Rightarrow> bool" where
  "surrogate c \<longleftrightarrow> 55296 \<le> c \<and> c \<le> 57343"

definition encodable :: "pystr \<Rightarrow> bool" where
  "encodable s = list_all (\<lambda>c. \<not> surrogate c) s"

section \<open>Summarizer: \<open>create_summary\<close>\<close>

text \<open>
  The chat completion is an external call. Inside the \<open>try\<close> it either raises, and the
  exception has a message, or yields a message whose \<open>content\<close> is a string or \<open>None\<close>
  (on which \<open>.strip()\<close> raises). The prompt is a fixed text around the title and the
  first 2000 characters of the content, so the call is a function of these two.
\<close>

datatype chat_result = Raised pystr | Content "pystr option"

text \<open>The message of the \<open>AttributeError\<close> that \<open>None.strip()\<close> raises.\<close>

definition NONE_STRIP :: pystr where
  "NONE_STRIP =
     [39] @ str ''NoneType'' @ [39] @ str '' object has no attribute '' @ [39] @ str ''strip'' @ [39]"

definition BULLET_PREFIXES :: "pystr list" where
  "BULLET_PREFIXES = [[8226], str ''-'', str ''*'', str ''1.'', str ''2.'', str ''3.'']"

text \<open>The inner loop: the first marker the line starts with is cut off.\<close>

fun clean_line :: "pystr list \<Rightarrow> pystr \<Rightarrow> pystr" where
  "clean_line [] line = line"
| "clean_line (p # ps) line =
     (if prefix p line then strip (drop (length p) line) else clean_line ps line)"

text \<open>The outer loop over the lines of the reply.\<close>

fun parse_bullets :: "pystr list \<Rightarrow> pystr list" where
  "parse_bullets [] = []"
| "parse_bullets (l # ls) =
     (let line = strip l in
      if line \<noteq> [] \<and> list_ex (\<lambda>p. prefix p line) BULLET_PREFIXES
      then clean_line BULLET_PREFIXES line # parse_bullets ls
      else parse_bullets ls)"

definition parse_fallback :: "pystr \<Rightarrow> pystr list" where
  "parse_fallback title =
     [str ''Breaking news from Boston: '' @ title,
      str ''Story developing with local impact'',
      str ''Full details and context available at Boston.com'']"

definition except_fallback :: "pystr \<Rightarrow> pystr list" where
  "except_fallback title =
     [str ''Boston news update: '' @ title,
      str ''Local story with community impact'',
      str ''Additional details in full article'']"

text \<open>The body of the \<open>try\<close>: the bullets it returns, or the message of what it raises.\<close>

definition try_summary ::
  "(pystr \<Rightarrow> pystr \<Rightarrow> chat_result) \<Rightarrow> pystr \<Rightarrow> pystr \<Rightarrow> pystr + pystr list" where
  "try_summary chat title content =
     (case chat title (take 2000 content) of
        Raised e \<Rightarrow> Inl e
      | Content None \<Rightarrow> Inl NONE_STRIP
      | Content (Some text) \<Rightarrow>
          Inr (let summary_text = strip text;
                   bullets = parse_bullets (split_on 10 summary_text)
               in if length bullets \<ge> 3 then take 3 bullets else parse_fallback title))"

text \<open>
  The handler prints the title and the exception, then returns its fallback. When the
  print raises, nothing is returned: the exception of the print leaves the function.
\<close>

definition create_summary ::
  "encoding \<Rightarrow> (pystr \<Rightarrow> pystr \<Rightarrow> chat_result) \<Rightarrow> pystr \<Rightarrow> pystr \<Rightarrow> pystr \<Rightarrow>
     error + pystr list" where
  "create_summary enc chat title content url =
     (case try_summary chat title content of
        Inr bullets \<Rightarrow> Inr bullets
      | Inl e \<Rightarrow>
          if printable enc (str ''Error generating summary for '' @ title @ str '': '' @ e)
          then Inr (except_fallback title)
          else Inl UnicodeEncodeError)"

section \<open>Classifier: \<open>determine_hook_type\<close>\<close>

datatype hook_type = SPORTS | TRANSIT | POLITICS | WEATHER | LOCAL_IMPACT | NEWS

definition SPORTS_WORDS :: "pystr list" where
  "SPORTS_WORDS = [str ''patriots'', str ''celtics'', str ''bruins'', str ''red sox'']"

definition TRANSIT_WORDS :: "pystr list" where
  "TRANSIT_WORDS =
     [str ''mbta'', str ''orange line'', str ''green line'', str ''commuter rail'', str ''traffic'']"

definition POLITICS_WORDS :: "pystr list" where
  "POLITICS_WORDS = [str ''mayor'', str ''city council'', str ''election'', str ''vote'']"

definition WEATHER_WORDS :: "pystr list" where
  "WEATHER_WORDS = [str ''weather'', str ''storm'', str ''snow'', str ''rain'']"

definition LOCAL_WORDS :: "pystr list" where
  "LOCAL_WORDS = [str ''boston'', str ''cambridge'', str ''somerville'', str ''brookline'']"

text \<open>\<open>any(word in s for word in words)\<close>.\<close>

definition any_in :: "pystr list \<Rightarrow> pystr \<Rightarrow> bool" where
  "any_in words s = list_ex (\<lambda>word. contains s word) words"

text \<open>
  The method call \<open>v.lower()\<close> on a value that may be \<open>None\<close>: \<open>None\<close> has no such
  attribute.
\<close>

definition lower_of :: "unicode_lower \<Rightarrow> pystr option \<Rightarrow> error + pystr" where
  "lower_of U v = (case v of None \<Rightarrow> Inl AttributeError | Some s \<Rightarrow> Inr (lower U s))"

definition determine_hook_type ::
  "unicode_lower \<Rightarrow> pystr \<Rightarrow> pystr option \<Rightarrow> error + hook_type" where
  "determine_hook_type U title content =
     (let title_lower = lower U title in
      case (if truthy content then lower_of U content else Inr []) of
        Inl e \<Rightarrow> Inl e
      | Inr content_lower \<Rightarrow>
          Inr (if any_in SPORTS_WORDS title_lower then SPORTS
               else if any_in TRANSIT_WORDS title_lower then TRANSIT
               else if any_in POLITICS_WORDS title_lower then POLITICS
               else if any_in WEATHER_WORDS title_lower then WEATHER
               else if any_in LOCAL_WORDS content_lower then LOCAL_IMPACT
               else NEWS))"

text \<open>
  The classifier as the specification words it: an ordered table of rules, each a
  label, the field it reads and its keywords; the first rule with a keyword in its
  field decides, and \<open>NEWS\<close> is the default.
\<close>

datatype field = Title | Body

definition RULES :: "(hook_type \<times> field \<times> pystr list) list" where
  "RULES =
     [(SPORTS, Title, SPORTS_WORDS),
      (TRANSIT, Title, TRANSIT_WORDS),
      (POLITICS, Title, POLITICS_WORDS),
      (WEATHER, Title, WEATHER_WORDS),
      (LOCAL_IMPACT, Body, LOCAL_WORDS)]"

fun first_match :: "(hook_type \<times> field \<times> pystr list) list \<Rightarrow> pystr \<Rightarrow> pystr \<Rightarrow> hook_type" where
  "first_match [] title_lower content_lower = NEWS"
| "first_match ((label, f, words) # rules) title_lower content_lower =
     (if any_in words (case f of Title \<Rightarrow> title_lower | Body \<Rightarrow> content_lower) then label
      else first_match rules title_lower content_lower)"

text \<open>The lower-cased content the classifier matches against.\<close>

definition content_lower_of :: "unicode_lower \<Rightarrow> pystr option \<Rightarrow> pystr" where
  "content_lower_of U content = (case content of None \<Rightarrow> [] | Some s \<Rightarrow> lower U s)"


section \<open>ContentExtractor: \<open>fetch_article_content\<close>\<close>

text \<open>
  The parsed page is a forest of elements (tag name, the values of the \<open>class\<close>
  attribute, children) and text nodes, in document order. The text nodes are the
  strings \<open>get_text\<close> joins: comments are not among them, nor are the strings the
  parser files under \<open>rt\<close>, \<open>rp\<close> and \<open>template\<close>.
\<close>

datatype node = Text pystr | Element pystr "pystr list" "node list"

definition UNWANTED :: "pystr list" where
  "UNWANTED =
     [str ''script'', str ''style'', str ''nav'', str ''header'', str ''footer'', str ''aside'']"

text \<open>Every element \<open>find_all\<close> finds with one of these tags is decomposed, with all below it.\<close>

fun remove_unwanted :: "node \<Rightarrow> node list" where
  "remove_unwanted (Text s) = [Text s]"
| "remove_unwanted (Element tag classes children) =
     (if tag \<in> set UNWANTED then []
      else [Element tag classes (concat (map remove_unwanted children))])"

fun elements :: "node \<Rightarrow> node list" where
  "elements (Text s) = []"
| "elements (Element tag classes children) =
     Element tag classes children # concat (map elements children)"

fun strings :: "node \<Rightarrow> pystr list" where
  "strings (Text s) = [s]"
| "strings (Element tag classes children) = concat (map strings children)"

text \<open>\<open>element.get_text(strip=True)\<close>: the stripped, non-empty strings, joined by nothing.\<close>

definition get_text :: "node \<Rightarrow> pystr" where
  "get_text element = concat (filter (\<lambda>s. s \<noteq> []) (map strip (strings element)))"

datatype selector = Class pystr | Tag pystr

fun matches :: "selector \<Rightarrow> node \<Rightarrow> bool" where
  "matches sel (Text s) = False"
| "matches (Class c) (Element tag classes children) = (c \<in> set classes)"
| "matches (Tag t) (Element tag classes children) = (t = tag)"

definition select_one :: "selector \<Rightarrow> node list \<Rightarrow> node option" where
  "select_one sel soup = find (matches sel) (concat (map elements soup))"

definition find_all :: "pystr \<Rightarrow> node list \<Rightarrow> node list" where
  "find_all tag soup = filter (matches (Tag tag)) (concat (map elements soup))"

definition SELECTORS :: "selector list" where
  "SELECTORS =
     [Class (str ''entry-content''), Class (str ''article-body''),
      Class (str ''post-content''), Tag (str ''article'')]"

text \<open>The loop over the selectors: it stops at the first selector that selects an element.\<close>

fun first_selected :: "selector list \<Rightarrow> node list \<Rightarrow> pystr option" where
  "first_selected [] soup = None"
| "first_selected (sel # sels) soup =
     (case select_one sel soup of
        Some element \<Rightarrow> Some (get_text element)
      | None \<Rightarrow> first_selected sels soup)"

definition paragraphs_text :: "node list \<Rightarrow> pystr" where
  "paragraphs_text soup = join (str '' '') (map get_text (take 10 (find_all (str ''p'') soup)))"

text \<open>The value of \<open>content\<close> when the \<open>return\<close> is reached.\<close>

definition page_content :: "node list \<Rightarrow> pystr option" where
  "page_content parsed =
     (let soup = concat (map remove_unwanted parsed);
          content = first_selected SELECTORS soup
      in if \<not> truthy content then Some (paragraphs_text soup) else content)"

definition excerpt :: "pystr option \<Rightarrow> pystr option" where
  "excerpt content = (if truthy content then map_option (take 4000) content else None)"

text \<open>
  The request either raises, with a message, or gives a response: a status code, the
  message of the error \<open>raise_for_status\<close> raises on the codes from 400 to 599, and what
  the parser makes of the body (a forest, or the message of what it raises). The
  body of the \<open>try\<close> gives the excerpt, or the message of what it raises.
\<close>

datatype response = Response nat pystr "pystr + node list"

definition try_fetch :: "(pystr \<Rightarrow> pystr + response) \<Rightarrow> pystr \<Rightarrow> pystr + pystr option" where
  "try_fetch get url =
     (case get url of
        Inl e \<Rightarrow> Inl e
      | Inr (Response status_code http_error body) \<Rightarrow>
          if 400 \<le> status_code \<and> status_code < 600 then Inl http_error
          else (case body of
                  Inl e \<Rightarrow> Inl e
                | Inr parsed \<Rightarrow> Inr (excerpt (page_content parsed))))"

text \<open>
  The handler prints the URL and the exception, then returns \<open>None\<close>. When the print
  raises, nothing is returned: the exception of the print leaves the function.
\<close>

definition fetch_article_content ::
  "encoding \<Rightarrow> (pystr \<Rightarrow> pystr + response) \<Rightarrow> pystr \<Rightarrow> error + pystr option" where
  "fetch_article_content enc get url =
     (case try_fetch get url of
        Inr content \<Rightarrow> Inr content
      | Inl e \<Rightarrow>
          if printable enc (str ''Error fetching article content from '' @ url @ str '': '' @ e)
          then Inr None
          else Inl UnicodeEncodeError)"

text \<open>
  The extractor as the specification words it: the selector list it names, the first
  selector that matches supplies the text, the paragraphs only when none matches.
\<close>

definition SPEC_SELECTORS :: "selector list" where
  "SPEC_SELECTORS =
     [Class (str ''content-body''), Class (str ''article-body''),
      Class (str ''post-content''), Tag (str ''article'')]"

definition spec_page_content :: "node list \<Rightarrow> pystr option" where
  "spec_page_content parsed =
     (let soup = concat (map remove_unwanted parsed) in
      case first_selected SPEC_SELECTORS soup of
        Some text \<Rightarrow> Some text
      | None \<Rightarrow> Some (paragraphs_text soup))"

section \<open>FeedPipeline: \<open>fetch_and_process_feeds\<close>\<close>

definition RSS_FEEDS :: "pystr list" where
  "RSS_FEEDS = [str ''https://www.boston.com/feed/bdc-msn-rss'']"

definition MAX_ARTICLES :: nat where
  "MAX_ARTICLES = 12"

text \<open>
  A feed entry: \<open>entry.title\<close> and \<open>entry.link\<close> raise when the entry has no such key,
  \<open>entry.get('published', '')\<close> and \<open>entry.get('summary', '')\<close> have a default.
\<close>

record feed_entry =
  entry_title :: "pystr option"
  entry_link :: "pystr option"
  published :: "pystr option"
  entry_summary :: "pystr option"

record article =
  title :: pystr
  link :: pystr
  pubDate :: pystr
  summary :: "pystr list"
  hookType :: hook_type
  processed_at :: pystr

text \<open>
  What the run reads from outside. The same request may be answered differently each
  time, so every call takes the number of external steps the run has made so far.
  \<open>stdout\<close> is the encoding the prints go through.
\<close>

record world =
  feedparser_parse :: "nat \<Rightarrow> pystr \<Rightarrow> error + feed_entry list"
  session_get :: "nat \<Rightarrow> pystr \<Rightarrow> pystr + response"
  chat_create :: "nat \<Rightarrow> pystr \<Rightarrow> pystr \<Rightarrow> chat_result"
  utcnow :: "nat \<Rightarrow> pystr"
  unicode :: unicode_lower
  stdout :: encoding

record state =
  all_articles :: "article list"
  seen_urls :: "pystr set"
  clock :: nat

text \<open>
  The body of the inner loop. What it has changed before an exception stays changed:
  the result is the state and the exception, if one was raised. The exits are a
  missing link, a seen link (\<open>continue\<close>), the content fetch raising, a missing title,
  the summary raising, and the print of the title raising after the article has
  been appended.
\<close>

definition process_entry :: "world \<Rightarrow> state \<Rightarrow> feed_entry \<Rightarrow> state \<times> error option" where
  "process_entry w s entry =
     (case entry_link entry of
        None \<Rightarrow> (s, Some AttributeError)
      | Some url \<Rightarrow>
          if url \<in> seen_urls s then (s, None)
          else
            (let s1 = s\<lparr>seen_urls := insert url (seen_urls s), clock := Suc (clock s)\<rparr> in
             case fetch_article_content (stdout w) (session_get w (clock s)) url of
               Inl e \<Rightarrow> (s1, Some e)
             | Inr fetched \<Rightarrow>
                 (let content =
                        (if \<not> truthy fetched
                         then (case entry_summary entry of None \<Rightarrow> [] | Some text \<Rightarrow> text)
                         else (case fetched of None \<Rightarrow> [] | Some text \<Rightarrow> text))
                  in case entry_title entry of
                       None \<Rightarrow> (s1, Some AttributeError)
                     | Some t \<Rightarrow>
                         (case create_summary (stdout w) (chat_create w (clock s)) t content url of
                            Inl e \<Rightarrow> (s1, Some e)
                          | Inr bullets \<Rightarrow>
                              (case determine_hook_type (unicode w) t (Some content) of
                                 Inl e \<Rightarrow> (s1, Some e)
                               | Inr hook_type \<Rightarrow>
                                   (let s2 = s1\<lparr>all_articles := all_articles s1 @
                                          [\<lparr>title = t, link = url,
                                            pubDate = (case published entry of
                                                         None \<Rightarrow> [] | Some d \<Rightarrow> d),
                                            summary = bullets, hookType = hook_type,
                                            processed_at = utcnow w (clock s)\<rparr>]\<rparr>
                                    in if printable (stdout w)
                                            (str ''Processed: '' @ take 60 t @ str ''...'')
                                       then (s2, None)
                                       else (s2, Some UnicodeEncodeError)))))))"

text \<open>The inner loop: an exception leaves it.\<close>

fun process_entries :: "world \<Rightarrow> state \<Rightarrow> feed_entry list \<Rightarrow> state \<times> error option" where
  "process_entries w s [] = (s, None)"
| "process_entries w s (entry # entries) =
     (case process_entry w s entry of
        (s', Some e) \<Rightarrow> (s', Some e)
      | (s', None) \<Rightarrow> process_entries w s' entries)"

text \<open>
  One turn of the outer loop: whatever the \<open>try\<close> raises, the handler goes on to the
  next feed. The two prints of the outer loop show the feed URL and the exception:
  ASCII text for the feeds of \<open>RSS_FEEDS\<close> and the exceptions of the loop body, which
  goes through every encoding.
\<close>

definition process_feed :: "world \<Rightarrow> state \<Rightarrow> pystr \<Rightarrow> state" where
  "process_feed w s feed_url =
     (case feedparser_parse w (clock s) feed_url of
        Inl e \<Rightarrow> s\<lparr>clock := Suc (clock s)\<rparr>
      | Inr entries \<Rightarrow>
          fst (process_entries w (s\<lparr>clock := Suc (clock s)\<rparr>) (take 15 entries)))"

definition initial :: state where
  "initial = \<lparr>all_articles = [], seen_urls = {}, clock = 0\<rparr>"

text \<open>
  \<open>list.sort(key=..., reverse=True)\<close> reverses the list, sorts it stably in ascending
  order of the key and reverses the result.
\<close>

definition sort_reverse :: "('a \<Rightarrow> pystr) \<Rightarrow> 'a list \<Rightarrow> 'a list" where
  "sort_reverse key xs = rev (sort_key key (rev xs))"

definition process_feeds :: "world \<Rightarrow> pystr list \<Rightarrow> article list" where
  "process_feeds w feeds =
     take MAX_ARTICLES (sort_reverse pubDate (all_articles (foldl (process_feed w) initial feeds)))"

definition fetch_and_process_feeds :: "world \<Rightarrow> article list" where
  "fetch_and_process_feeds w = process_feeds w RSS_FEEDS"

text \<open>
  What the loops keep true: no two collected articles have the same link, and the link
  of every collected article is among the seen ones.
\<close>

definition links_seen :: "state \<Rightarrow> bool" where
  "links_seen s \<longleftrightarrow>
     distinct (map link (all_articles s)) \<and> link ` set (all_articles s) \<subseteq> seen_urls s"

section \<open>Persistence: \<open>save_data\<close>\<close>

record stats =
  totalArticles :: nat
  lastRefresh :: pystr
  version :: pystr

record news_data =
  lastUpdated :: pystr
  articles :: "article list"
  stats :: stats

text \<open>
  The file \<open>news-data.json\<close>: not there, cut off by a write that raised, or holding a
  document.
\<close>

datatype data_file = No_file | Cut_off | Snapshot news_data

text \<open>
  What \<open>json.load\<close> may give for the history. An element of the article list is an
  object with a link, an object without one, or a value that is no object; the value
  under \<open>articles\<close> is a list or something else; the key may be missing
  (\<open>history.get("articles", [])\<close>), and the other two keys are only written.
\<close>

datatype history_entry = Entry article | No_link | Not_dict

datatype articles_value = Entries "history_entry list" | Not_list

record history =
  history_articles :: "articles_value option"
  history_lastUpdated :: "pystr option"
  history_totalArticles :: "nat option"

text \<open>
  The file \<open>news-history.json\<close> before the run: not there, there but not readable by
  the process, there but not JSON, holding JSON that is no object, or holding an
  object.
\<close>

datatype history_file = Absent | Unreadable | Malformed | Not_object | Document history

text \<open>
  What the operating system does with \<open>open(..., "w")\<close> and the writes that follow:
  all goes well, the file cannot be opened (it stays as it is), or the write breaks
  off (the file is cut off).
\<close>

datatype disk = Disk_ok | Open_refused | Write_breaks

record files =
  news_data_json :: data_file
  news_history_json :: history_file
  news_data_disk :: disk
  news_history_disk :: disk

text \<open>The strings of a document, all of which \<open>json.dump\<close> writes as they are.\<close>

definition article_encodable :: "article \<Rightarrow> bool" where
  "article_encodable a \<longleftrightarrow>
     encodable (title a) \<and> encodable (link a) \<and> encodable (pubDate a) \<and>
     list_all encodable (summary a) \<and> encodable (processed_at a)"

definition news_data_encodable :: "news_data \<Rightarrow> bool" where
  "news_data_encodable d \<longleftrightarrow>
     encodable (lastUpdated d) \<and> list_all article_encodable (articles d) \<and>
     encodable (lastRefresh (stats d)) \<and> encodable (version (stats d))"

fun entry_encodable :: "history_entry \<Rightarrow> bool" where
  "entry_encodable (Entry a) = article_encodable a"
| "entry_encodable No_link = True"
| "entry_encodable Not_dict = True"

definition history_encodable :: "history \<Rightarrow> bool" where
  "history_encodable h \<longleftrightarrow>
     (case history_articles h of
        Some (Entries es) \<Rightarrow> list_all entry_encodable es
      | _ \<Rightarrow> True) \<and>
     (case history_lastUpdated h of None \<Rightarrow> True | Some t \<Rightarrow> encodable t)"

text \<open>
  \<open>with open(..., "w", encoding="utf-8") as f: json.dump(..., f, ensure_ascii=False)\<close>:
  the write is done, or \<open>open\<close> has raised, or the write has raised and left the file
  cut off.
\<close>

datatype written = Done | Refused error | Broken error

definition write_json :: "disk \<Rightarrow> bool \<Rightarrow> written" where
  "write_json d text_encodable =
     (case d of
        Open_refused \<Rightarrow> Refused PermissionError
      | Write_breaks \<Rightarrow> Broken OSError
      | Disk_ok \<Rightarrow> if text_encodable then Done else Broken UnicodeEncodeError)"

text \<open>\<open>open\<close> followed by \<open>json.load\<close>: an object, another JSON value (\<open>None\<close>), or an exception.\<close>

definition load_history :: "history_file \<Rightarrow> error + history option" where
  "load_history f =
     (case f of
        Absent \<Rightarrow> Inl FileNotFoundError
      | Unreadable \<Rightarrow> Inl PermissionError
      | Malformed \<Rightarrow> Inl JSONDecodeError
      | Not_object \<Rightarrow> Inr None
      | Document h \<Rightarrow> Inr (Some h))"

text \<open>\<open>history.get("articles", [])\<close>, used as a list: a value that is no list raises.\<close>

definition get_articles :: "history \<Rightarrow> error + history_entry list" where
  "get_articles h =
     (case history_articles h of
        None \<Rightarrow> Inr []
      | Some (Entries es) \<Rightarrow> Inr es
      | Some Not_list \<Rightarrow> Inl TypeError)"

text \<open>\<open>{article["link"] for article in ...}\<close>: the first element without a link raises.\<close>

fun existing_links :: "history_entry list \<Rightarrow> error + pystr list" where
  "existing_links [] = Inr []"
| "existing_links (Entry a # es) =
     (case existing_links es of Inl e \<Rightarrow> Inl e | Inr ls \<Rightarrow> Inr (link a # ls))"
| "existing_links (No_link # es) = Inl KeyError"
| "existing_links (Not_dict # es) = Inl TypeError"

text \<open>The history as it is written, from the list it held and the links of that list.\<close>

definition merge_history ::
  "pystr \<Rightarrow> article list \<Rightarrow> history \<Rightarrow> history_entry list \<Rightarrow> pystr list \<Rightarrow> history" where
  "merge_history current_time arts h old links =
     (let new_articles = filter (\<lambda>a. link a \<notin> set links) arts;
          merged = map Entry new_articles @ old;
          capped = take 50 merged
      in h\<lparr>history_articles := Some (Entries capped),
           history_lastUpdated := Some current_time,
           history_totalArticles := Some (length capped)\<rparr>)"

text \<open>The part of \<open>save_data\<close> after the history has been loaded.\<close>

definition store_history :: "pystr \<Rightarrow> article list \<Rightarrow> files \<Rightarrow> history \<Rightarrow> files \<times> error option" where
  "store_history current_time arts fs h =
     (case get_articles h of
        Inl e \<Rightarrow> (fs, Some e)
      | Inr old \<Rightarrow>
          (case existing_links old of
             Inl e \<Rightarrow> (fs, Some e)
           | Inr links \<Rightarrow>
               (let h' = merge_history current_time arts h old links in
                case write_json (news_history_disk fs) (history_encodable h') of
                  Refused e \<Rightarrow> (fs, Some e)
                | Broken e \<Rightarrow> (fs\<lparr>news_history_json := Malformed\<rparr>, Some e)
                | Done \<Rightarrow> (fs\<lparr>news_history_json := Document h'\<rparr>, None))))"

definition EMPTY_HISTORY :: history where
  "EMPTY_HISTORY =
     \<lparr>history_articles = Some (Entries []), history_lastUpdated = None,
      history_totalArticles = Some 0\<rparr>"

definition new_snapshot :: "pystr \<Rightarrow> article list \<Rightarrow> news_data" where
  "new_snapshot current_time arts =
     \<lparr>lastUpdated = current_time, articles = arts,
      stats = \<lparr>totalArticles = length arts, lastRefresh = current_time,
               version = str ''2.0''\<rparr>\<rparr>"

text \<open>
  \<open>save_data\<close> returns the files as it leaves them, and the exception if it raises.
  Only \<open>FileNotFoundError\<close> is handled where the history is read. The last print
  shows two numbers in ASCII text, which goes through every encoding.
\<close>

definition save_data :: "pystr \<Rightarrow> article list \<Rightarrow> files \<Rightarrow> files \<times> error option" where
  "save_data current_time arts fs =
     (let news_data = new_snapshot current_time arts in
      case write_json (news_data_disk fs) (news_data_encodable news_data) of
        Refused e \<Rightarrow> (fs, Some e)
      | Broken e \<Rightarrow> (fs\<lparr>news_data_json := Cut_off\<rparr>, Some e)
      | Done \<Rightarrow>
          (let fs1 = fs\<lparr>news_data_json := Snapshot news_data\<rparr> in
           case load_history (news_history_json fs1) of
             Inl e \<Rightarrow>
               if e = FileNotFoundError then store_history current_time arts fs1 EMPTY_HISTORY
               else (fs1, Some e)
           | Inr None \<Rightarrow> (fs1, Some AttributeError)
           | Inr (Some h) \<Rightarrow> store_history current_time arts fs1 h))"

text \<open>
  The words of the specification: the history before the run is a list of articles
  (the empty list when the file is not there), and the new articles are the input
  articles whose link is not among them.
\<close>

definition holds_history :: "history_file \<Rightarrow> article list \<Rightarrow> bool" where
  "holds_history f old \<longleftrightarrow>
     (case f of
        Absent \<Rightarrow> old = []
      | Document h \<Rightarrow>
          (case history_articles h of
             None \<Rightarrow> old = []
           | Some v \<Rightarrow> v = Entries (map Entry old))
      | _ \<Rightarrow> False)"

definition new_unique :: "article list \<Rightarrow> article list \<Rightarrow> article list" where
  "new_unique arts old = filter (\<lambda>a. link a \<notin> set (map link old)) arts"

text \<open>The document the merge starts from: the one of the file, or the empty one.\<close>

definition starting_history :: "history_file \<Rightarrow> history" where
  "starting_history f = (case f of Document h \<Rightarrow> h | _ \<Rightarrow> EMPTY_HISTORY)"

section \<open>Sample inputs\<close>

text \<open>A reply with a heading line, four bullet lines in four styles and a final newline.\<close>

definition sample_reply :: pystr where
  "sample_reply =
     str ''Summary:'' @ [10, 8226, 32] @ str ''Fire on Elm St'' @ [10] @
     str ''- Two hurt '' @ [10] @ str ''3.Why now?'' @ [10] @ str ''* extra'' @ [10]"

text \<open>Case tables that keep every code point from 128 on as it is.\<close>

definition ascii_only :: unicode_lower where
  "ascii_only s i = [s ! i]"

text \<open>Two encodings of stdout: UTF-8, and \<open>ascii\<close>.\<close>

definition utf8 :: encoding where
  "utf8 c = (\<not> surrogate c)"

definition ascii :: encoding where
  "ascii c = False"

text \<open>A title with an accented letter, and one that holds a lone surrogate.\<close>

definition cafe_title :: pystr where
  "cafe_title = str ''Caf'' @ [233] @ str '' reopens''"

definition surrogate_title :: pystr where
  "surrogate_title = str ''Fire '' @ [55296]"

definition storm_title :: pystr where
  "storm_title = str ''Mayor announces storm shelters''"

definition STORM_TITLE :: pystr where
  "STORM_TITLE = str ''MAYOR ANNOUNCES STORM SHELTERS''"

text \<open>A model call and a page request that raise.\<close>

definition failing_chat :: "pystr \<Rightarrow> pystr \<Rightarrow> chat_result" where
  "failing_chat t c = Raised (str ''timed out'')"

definition failing_get :: "pystr \<Rightarrow> pystr + response" where
  "failing_get u = Inl (str ''timed out'')"

text \<open>A link with an accented letter, and one that holds a lone surrogate.\<close>

definition cafe_url :: pystr where
  "cafe_url = str ''https://www.boston.com/caf'' @ [233]"

definition surrogate_url :: pystr where
  "surrogate_url = str ''https://www.boston.com/'' @ [55296]"

text \<open>Pages, as the parser gives them.\<close>

definition page_a :: "node list" where
  "page_a =
     [Element (str ''div'') [str ''content-body''] [Text (str ''Body'')],
      Element (str ''p'') [] [Text (str ''Para'')]]"

definition page_b :: "node list" where
  "page_b =
     [Element (str ''div'') [str ''article-body''] [],
      Element (str ''p'') [] [Text (str ''Para'')]]"

definition page_c :: "node list" where
  "page_c =
     [Element (str ''nav'') [] [Element (str ''p'') [] [Text (str ''Menu'')]],
      Element (str ''article'') [] [Text (str '' Story '')],
      Element (str ''div'') [str ''post-content''] [Element (str ''p'') [] [Text (str ''Post'')]]]"

definition page_long :: "node list" where
  "page_long = [Element (str ''article'') [] [Text (replicate 5000 97)]]"

text \<open>
  A feed of three entries, the second with the link of the first, in a world where
  every page request and every model call raises and stdout is UTF-8.
\<close>

definition entry_a :: feed_entry where
  "entry_a = \<lparr>entry_title = Some (str ''Snow day''), entry_link = Some (str ''L1''),
     published = Some (str ''2024-01-01''), entry_summary = Some (str ''Schools closed'')\<rparr>"

definition entry_b :: feed_entry where
  "entry_b = \<lparr>entry_title = Some (str ''Snow day again''), entry_link = Some (str ''L1''),
     published = Some (str ''2024-01-03''), entry_summary = None\<rparr>"

definition entry_c :: feed_entry where
  "entry_c = \<lparr>entry_title = Some (str ''Quiet day''), entry_link = Some (str ''L2''),
     published = Some (str ''2024-01-02''), entry_summary = None\<rparr>"

definition sample_world :: world where
  "sample_world = \<lparr>feedparser_parse = \<lambda>n u. Inr [entry_a, entry_b, entry_c],
     session_get = \<lambda>n u. Inl (str ''timed out''), chat_create = \<lambda>n t c. Raised (str ''timed out''),
     utcnow = \<lambda>n. str ''now'', unicode = ascii_only, stdout = utf8\<rparr>"

definition article_a :: article where
  "article_a = \<lparr>title = str ''Snow day'', link = str ''L1'', pubDate = str ''2024-01-01'',
     summary = except_fallback (str ''Snow day''), hookType = WEATHER,
     processed_at = str ''now''\<rparr>"

definition article_c :: article where
  "article_c = \<lparr>title = str ''Quiet day'', link = str ''L2'', pubDate = str ''2024-01-02'',
     summary = except_fallback (str ''Quiet day''), hookType = NEWS,
     processed_at = str ''now''\<rparr>"

text \<open>
  An entry whose title stdout cannot show when stdout is \<open>ascii\<close>, and the same world
  with that encoding.
\<close>

definition entry_cafe :: feed_entry where
  "entry_cafe = \<lparr>entry_title = Some cafe_title, entry_link = Some (str ''L3''),
     published = Some (str ''2024-01-04''), entry_summary = None\<rparr>"

definition ascii_world :: world where
  "ascii_world = sample_world\<lparr>stdout := ascii\<rparr>"

text \<open>Articles and files for the persistence step.\<close>

definition art :: "string \<Rightarrow> string \<Rightarrow> article" where
  "art l d = \<lparr>title = str ''T'', link = str l, pubDate = str d, summary = [], hookType = NEWS,
     processed_at = str ''now''\<rparr>"

definition surrogate_article :: article where
  "surrogate_article = \<lparr>title = surrogate_title, link = str ''L9'', pubDate = str ''2024-01-05'',
     summary = [], hookType = NEWS, processed_at = str ''now''\<rparr>"

definition no_files :: files where
  "no_files = \<lparr>news_data_json = No_file, news_history_json = Absent,
     news_data_disk = Disk_ok, news_history_disk = Disk_ok\<rparr>"

definition old_history :: history where
  "old_history =
     \<lparr>history_articles =
        Some (Entries [Entry (art ''L1'' ''2024-01-02''), Entry (art ''L2'' ''2024-01-01'')]),
      history_lastUpdated = Some (str ''t0''), history_totalArticles = Some 2\<rparr>"

definition old_files :: files where
  "old_files = \<lparr>news_data_json = No_file, news_history_json = Document old_history,
     news_data_disk = Disk_ok, news_history_disk = Disk_ok\<rparr>"

definition corrupt_files :: files where
  "corrupt_files = \<lparr>news_data_json = No_file, news_history_json = Malformed,
     news_data_disk = Disk_ok, news_history_disk = Disk_ok\<rparr>"

definition locked_files :: files where
  "locked_files = \<lparr>news_data_json = No_file, news_history_json = Unreadable,
     news_data_disk = Disk_ok, news_history_disk = Disk_ok\<rparr>"

text \<open>The state in which the inner loop starts on the first feed.\<close>

definition first_feed :: state where
  "first_feed = \<lparr>all_articles = [], seen_urls = {}, clock = Suc 0\<rparr>"

section \<open>Properties of the Summarizer\<close>

lemma length_parse_fallback: "length (parse_fallback t) = 3"
  by (simp add: parse_fallback_def)

lemma length_except_fallback: "length (except_fallback t) = 3"
  by (simp add: except_fallback_def)

lemma try_summary_three: "try_summary chat t c = Inr bullets \<Longrightarrow> length bullets = 3"
  by (auto simp: try_summary_def Let_def length_parse_fallback
      split: chat_result.splits option.splits if_splits)

text \<open>Whatever \<open>create_summary\<close> returns is a list of three bullets.\<close>

lemma create_summary_three: "create_summary enc chat t c u = Inr bullets \<Longrightarrow> length bullets = 3"
  by (auto simp: create_summary_def length_except_fallback
      split: sum.splits if_splits dest: try_summary_three)

text \<open>It returns when the \<open>try\<close> does, and when the handler's print goes through.\<close>

lemma create_summary_returns:
  "try_summary chat t c = Inr bullets \<Longrightarrow> create_summary enc chat t c u = Inr bullets"
  "try_summary chat t c = Inl e \<Longrightarrow>
   printable enc (str ''Error generating summary for '' @ t @ str '': '' @ e) \<Longrightarrow>
   create_summary enc chat t c u = Inr (except_fallback t)"
  by (simp_all add: create_summary_def)

text \<open>A reply of four bullets gives the first three, whatever stdout is.\<close>

lemma create_summary_sample:
  "create_summary enc (\<lambda>t c. Content (Some sample_reply)) (str ''Fire'') (str ''text'') (str ''u'')
     = Inr [str ''Fire on Elm St'', str ''Two hurt'', str ''Why now?'']"
proof -
  have "parse_bullets (split_on 10 (strip sample_reply)) =
      [str ''Fire on Elm St'', str ''Two hurt'', str ''Why now?'', str ''extra'']"
    by (simp add: sample_reply_def str_def strip_def isspace_def BULLET_PREFIXES_def Let_def)
  then show ?thesis
    by (simp add: create_summary_def try_summary_def Let_def)
qed

lemma printable_append: "printable enc (a @ b) \<longleftrightarrow> printable enc a \<and> printable enc b"
  by (simp add: printable_def)

lemma not_printable_surrogate_title: "\<not> printable utf8 surrogate_title"
  by (simp add: printable_def utf8_def surrogate_def surrogate_title_def)

lemma not_printable_cafe_title: "\<not> printable ascii cafe_title"
  by (simp add: printable_def ascii_def cafe_title_def)

text \<open>
  C1 fails on the code where the handler's print raises. The model call raises, so
  the \<open>except\<close> branch is taken; it prints the title before it returns; stdout has no
  form for a character of the title (a lone surrogate under UTF-8, an accented
  letter under \<open>ascii\<close>), so the print raises and \<open>create_summary\<close> raises
  \<open>UnicodeEncodeError\<close> instead of returning three bullets.
\<close>

theorem create_summary_handler_raises:
  "create_summary utf8 failing_chat surrogate_title (str ''text'') (str ''u'')
     = Inl UnicodeEncodeError \<and>
   create_summary ascii failing_chat cafe_title (str ''text'') (str ''u'')
     = Inl UnicodeEncodeError"
  by (simp add: create_summary_def try_summary_def failing_chat_def printable_append
      not_printable_surrogate_title not_printable_cafe_title)

section \<open>Properties of the Classifier\<close>

lemma contains_iff_sublist: "contains s w \<longleftrightarrow> sublist w s"
  by (induction s) (auto simp: sublist_Cons_right)

lemma any_in_iff: "any_in words s \<longleftrightarrow> (\<exists>w \<in> set words. sublist w s)"
  by (simp add: any_in_def list_ex_iff contains_iff_sublist)

lemma determine_hook_type_eq:
  "determine_hook_type U t c =
     Inr (if any_in SPORTS_WORDS (lower U t) then SPORTS
          else if any_in TRANSIT_WORDS (lower U t) then TRANSIT
          else if any_in POLITICS_WORDS (lower U t) then POLITICS
          else if any_in WEATHER_WORDS (lower U t) then WEATHER
          else if any_in LOCAL_WORDS (content_lower_of U c) then LOCAL_IMPACT
          else NEWS)"
  by (cases c)
    (simp_all add: determine_hook_type_def content_lower_of_def lower_of_def truthy_def Let_def
      lower_def)

lemma lower_storm_title: "lower U storm_title = str ''mayor announces storm shelters''"
  by (simp add: storm_title_def lower_def str_def ascii_lower_def)

lemma lower_STORM_TITLE: "lower U STORM_TITLE = str ''mayor announces storm shelters''"
  by (simp add: STORM_TITLE_def lower_def str_def ascii_lower_def)

lemma storm_words:
  "\<not> any_in SPORTS_WORDS (str ''mayor announces storm shelters'')"
  "\<not> any_in TRANSIT_WORDS (str ''mayor announces storm shelters'')"
  "any_in POLITICS_WORDS (str ''mayor announces storm shelters'')"
  "any_in WEATHER_WORDS (str ''mayor announces storm shelters'')"
  by (simp_all add: any_in_def str_def SPORTS_WORDS_def TRANSIT_WORDS_def POLITICS_WORDS_def
      WEATHER_WORDS_def)

lemma no_local_in_empty: "\<not> any_in LOCAL_WORDS []"
  by (simp add: any_in_def LOCAL_WORDS_def str_def)

text \<open>
  C7. \<open>determine_hook_type\<close> is a function of the title and the content (and of
  Unicode's case tables) that never raises, and it is the ordered rule table of the
  specification: the keywords of SPORTS, TRANSIT, POLITICS and WEATHER are searched in
  the lower-cased title in this order, those of LOCAL_IMPACT in the lower-cased
  content, the first rule with a keyword decides and NEWS is the default. Two inputs
  with the same lower-casing get the same label. A title with a POLITICS keyword and
  no SPORTS or TRANSIT keyword is POLITICS, also when it has a WEATHER keyword, as
  "Mayor announces storm shelters" has.
\<close>

theorem determine_hook_type_priority:
  "determine_hook_type U t c =
     Inr (first_match RULES (lower U t) (content_lower_of U c)) \<and>
   (any_in SPORTS_WORDS (lower U t) \<longrightarrow> determine_hook_type U t c = Inr SPORTS) \<and>
   (\<not> any_in SPORTS_WORDS (lower U t) \<and> any_in TRANSIT_WORDS (lower U t)
      \<longrightarrow> determine_hook_type U t c = Inr TRANSIT) \<and>
   (\<not> any_in SPORTS_WORDS (lower U t) \<and> \<not> any_in TRANSIT_WORDS (lower U t) \<and>
    any_in POLITICS_WORDS (lower U t)
      \<longrightarrow> determine_hook_type U t c = Inr POLITICS) \<and>
   (\<not> any_in SPORTS_WORDS (lower U t) \<and> \<not> any_in TRANSIT_WORDS (lower U t) \<and>
    \<not> any_in POLITICS_WORDS (lower U t) \<and> any_in WEATHER_WORDS (lower U t)
      \<longrightarrow> determine_hook_type U t c = Inr WEATHER) \<and>
   (\<not> any_in SPORTS_WORDS (lower U t) \<and> \<not> any_in TRANSIT_WORDS (lower U t) \<and>
    \<not> any_in POLITICS_WORDS (lower U t) \<and> \<not> any_in WEATHER_WORDS (lower U t) \<and>
    any_in LOCAL_WORDS (content_lower_of U c)
      \<longrightarrow> determine_hook_type U t c = Inr LOCAL_IMPACT) \<and>
   (\<not> any_in SPORTS_WORDS (lower U t) \<and> \<not> any_in TRANSIT_WORDS (lower U t) \<and>
    \<not> any_in POLITICS_WORDS (lower U t) \<and> \<not> any_in WEATHER_WORDS (lower U t) \<and>
    \<not> any_in LOCAL_WORDS (content_lower_of U c)
      \<longrightarrow> determine_hook_type U t c = Inr NEWS) \<and>
   (lower U t' = lower U t \<and> content_lower_of U c' = content_lower_of U c
      \<longrightarrow> determine_hook_type U t' c' = determine_hook_type U t c) \<and>
   determine_hook_type U storm_title c = Inr POLITICS"
proof -
  have spec: "determine_hook_type U t c =
      Inr (first_match RULES (lower U t) (content_lower_of U c))"
    by (simp add: determine_hook_type_eq RULES_def)
  have insens: "lower U t' = lower U t \<and> content_lower_of U c' = content_lower_of U c
      \<longrightarrow> determine_hook_type U t' c' = determine_hook_type U t c"
    by (simp add: determine_hook_type_eq)
  have storm: "determine_hook_type U storm_title c = Inr POLITICS"
    by (simp add: determine_hook_type_eq lower_storm_title storm_words)
  show ?thesis
    using spec insens storm by (simp add: determine_hook_type_eq)
qed

theorem determine_hook_type_priority_witness:
  "any_in POLITICS_WORDS (lower ascii_only storm_title) \<and>
   any_in WEATHER_WORDS (lower ascii_only storm_title) \<and>
   determine_hook_type ascii_only storm_title (Some (str ''Shelters open in Boston'')) = Inr POLITICS \<and>
   determine_hook_type ascii_only STORM_TITLE (Some (str ''Shelters open in Boston'')) = Inr POLITICS"
proof -
  have h: "\<not> any_in SPORTS_WORDS (lower ascii_only storm_title) \<and>
      \<not> any_in TRANSIT_WORDS (lower ascii_only storm_title) \<and>
      any_in POLITICS_WORDS (lower ascii_only storm_title)"
    by (simp add: lower_storm_title storm_words)
  have w: "any_in WEATHER_WORDS (lower ascii_only storm_title)"
    by (simp add: lower_storm_title storm_words)
  have e: "lower ascii_only STORM_TITLE = lower ascii_only storm_title \<and>
      content_lower_of ascii_only (Some (str ''Shelters open in Boston'')) =
      content_lower_of ascii_only (Some (str ''Shelters open in Boston''))"
    by (simp add: lower_storm_title lower_STORM_TITLE)
  from determine_hook_type_priority
    [of ascii_only storm_title "Some (str ''Shelters open in Boston'')" STORM_TITLE
      "Some (str ''Shelters open in Boston'')"] h w e
  show ?thesis by metis
qed

text \<open>
  C10. \<open>determine_hook_type\<close> returns a label for every title and every content,
  also for the content \<open>None\<close>, on which \<open>.lower()\<close> would raise: the content is
  lower-cased only when it is a non-empty string. When the content is \<open>None\<close> or
  empty the label is never LOCAL_IMPACT; it is decided by the four title rules and is
  NEWS when none of them matches.
\<close>

theorem determine_hook_type_total:
  "(\<exists>h. determine_hook_type U t c = Inr h) \<and>
   lower_of U None = Inl AttributeError \<and>
   (c = None \<or> c = Some [] \<longrightarrow>
      determine_hook_type U t c \<noteq> Inr LOCAL_IMPACT \<and>
      determine_hook_type U t c =
        Inr (if any_in SPORTS_WORDS (lower U t) then SPORTS
             else if any_in TRANSIT_WORDS (lower U t) then TRANSIT
             else if any_in POLITICS_WORDS (lower U t) then POLITICS
             else if any_in WEATHER_WORDS (lower U t) then WEATHER
             else NEWS))"
proof -
  have total: "\<exists>h. determine_hook_type U t c = Inr h"
    by (simp add: determine_hook_type_eq)
  have raises: "lower_of U None = Inl AttributeError"
    by (simp add: lower_of_def)
  have empty: "content_lower_of U c = []" if "c = None \<or> c = Some []"
    using that by (auto simp: content_lower_of_def lower_def)
  have "determine_hook_type U t c \<noteq> Inr LOCAL_IMPACT \<and>
      determine_hook_type U t c =
        Inr (if any_in SPORTS_WORDS (lower U t) then SPORTS
             else if any_in TRANSIT_WORDS (lower U t) then TRANSIT
             else if any_in POLITICS_WORDS (lower U t) then POLITICS
             else if any_in WEATHER_WORDS (lower U t) then WEATHER
             else NEWS)" if "c = None \<or> c = Some []"
    by (simp add: determine_hook_type_eq empty [OF that] no_local_in_empty)
  with total raises show ?thesis by blast
qed

theorem determine_hook_type_total_witness:
  "determine_hook_type ascii_only (str ''Quiet day'') None = Inr NEWS \<and>
   determine_hook_type ascii_only (str ''Quiet day'') (Some []) = Inr NEWS \<and>
   determine_hook_type ascii_only (str ''Snow day'') None = Inr WEATHER"
proof -
  have q: "lower ascii_only (str ''Quiet day'') = str ''quiet day''"
    by (simp add: lower_def str_def ascii_lower_def)
  have s: "lower ascii_only (str ''Snow day'') = str ''snow day''"
    by (simp add: lower_def str_def ascii_lower_def)
  have qw: "\<not> any_in SPORTS_WORDS (str ''quiet day'') \<and> \<not> any_in TRANSIT_WORDS (str ''quiet day'') \<and>
      \<not> any_in POLITICS_WORDS (str ''quiet day'') \<and> \<not> any_in WEATHER_WORDS (str ''quiet day'')"
    by (simp add: any_in_def str_def SPORTS_WORDS_def TRANSIT_WORDS_def POLITICS_WORDS_def
      WEATHER_WORDS_def)
  have sw: "\<not> any_in SPORTS_WORDS (str ''snow day'') \<and> \<not> any_in TRANSIT_WORDS (str ''snow day'') \<and>
      \<not> any_in POLITICS_WORDS (str ''snow day'') \<and> any_in WEATHER_WORDS (str ''snow day'')"
    by (simp add: any_in_def str_def SPORTS_WORDS_def TRANSIT_WORDS_def POLITICS_WORDS_def
      WEATHER_WORDS_def)
  from determine_hook_type_total [of ascii_only "str ''Quiet day''" None]
    determine_hook_type_total [of ascii_only "str ''Quiet day''" "Some []"]
    determine_hook_type_total [of ascii_only "str ''Snow day''" None]
  show ?thesis by (simp add: q s qw sw)
qed

section \<open>Properties of the ContentExtractor\<close>

lemma first_selected_first:
  "i < length sels \<Longrightarrow> select_one (sels ! i) soup = Some el \<Longrightarrow>
   (\<forall>j<i. select_one (sels ! j) soup = None) \<Longrightarrow>
   first_selected sels soup = Some (get_text el)"
proof (induction sels arbitrary: i)
  case Nil
  then show ?case by simp
next
  case (Cons sel sels)
  show ?case
  proof (cases i)
    case 0
    with Cons.prems show ?thesis by simp
  next
    case (Suc k)
    from Cons.prems(3) Suc have none: "select_one sel soup = None" by auto
    from Cons.prems Suc have "\<forall>j<k. select_one (sels ! j) soup = None" by auto
    with Cons.IH [of k] Cons.prems Suc none show ?thesis by simp
  qed
qed

lemma first_selected_none:
  "(\<forall>j<length sels. select_one (sels ! j) soup = None) \<Longrightarrow> first_selected sels soup = None"
proof (induction sels)
  case Nil
  then show ?case by simp
next
  case (Cons sel sels)
  from Cons.prems have "select_one sel soup = None" by auto
  moreover from Cons.prems have "\<forall>j<length sels. select_one (sels ! j) soup = None" by auto
  ultimately show ?case using Cons.IH by simp
qed


lemma page_content_eq:
  "page_content parsed =
     (case first_selected SELECTORS (concat (map remove_unwanted parsed)) of
        None \<Rightarrow> Some (paragraphs_text (concat (map remove_unwanted parsed)))
      | Some text \<Rightarrow>
          if text = [] then Some (paragraphs_text (concat (map remove_unwanted parsed)))
          else Some text)"
  by (simp add: page_content_def Let_def truthy_def split: option.split)

text \<open>
  C6 (as amended). After the unwanted elements are removed, the selectors are tried in
  the order \<open>.entry-content\<close>, \<open>.article-body\<close>, \<open>.post-content\<close>, \<open>article\<close>. The
  first selector that selects an element ends the search, and the text of that
  element is the content if it is not empty. When no selector selects an element, or
  the selected element has no text, the content is the text of the first ten \<open>p\<close>
  elements, joined by a space.
\<close>

theorem page_content_selector_order:
  "(\<forall>i el. i < length SELECTORS \<and>
      select_one (SELECTORS ! i) (concat (map remove_unwanted parsed)) = Some el \<and>
      (\<forall>j<i. select_one (SELECTORS ! j) (concat (map remove_unwanted parsed)) = None)
      \<longrightarrow> page_content parsed =
            Some (if get_text el \<noteq> [] then get_text el
                  else paragraphs_text (concat (map remove_unwanted parsed)))) \<and>
   ((\<forall>j<length SELECTORS. select_one (SELECTORS ! j) (concat (map remove_unwanted parsed)) = None)
      \<longrightarrow> page_content parsed = Some (paragraphs_text (concat (map remove_unwanted parsed)))) \<and>
   paragraphs_text (concat (map remove_unwanted parsed)) =
     join (str '' '')
       (map get_text (take 10 (find_all (str ''p'') (concat (map remove_unwanted parsed)))))"
proof -
  let ?soup = "concat (map remove_unwanted parsed)"
  have a: "page_content parsed =
      Some (if get_text el \<noteq> [] then get_text el else paragraphs_text ?soup)"
    if "i < length SELECTORS" "select_one (SELECTORS ! i) ?soup = Some el"
      "\<forall>j<i. select_one (SELECTORS ! j) ?soup = None" for i el
    using first_selected_first [OF that] by (simp add: page_content_eq)
  have b: "page_content parsed = Some (paragraphs_text ?soup)"
    if "\<forall>j<length SELECTORS. select_one (SELECTORS ! j) ?soup = None"
    using first_selected_none [OF that] by (simp add: page_content_eq)
  have c: "paragraphs_text ?soup =
      join (str '' '') (map get_text (take 10 (find_all (str ''p'') ?soup)))"
    by (simp add: paragraphs_text_def)
  from a b c show ?thesis by blast
qed

lemma remove_unwanted_page_c:
  "concat (map remove_unwanted page_c) =
     [Element (str ''article'') [] [Text (str '' Story '')],
      Element (str ''div'') [str ''post-content''] [Element (str ''p'') [] [Text (str ''Post'')]]]"
  by (simp add: page_c_def UNWANTED_def str_def)

theorem page_content_selector_order_witness:
  "select_one (Class (str ''post-content'')) (concat (map remove_unwanted page_c)) =
     Some (Element (str ''div'') [str ''post-content''] [Element (str ''p'') [] [Text (str ''Post'')]]) \<and>
   select_one (Tag (str ''article'')) (concat (map remove_unwanted page_c)) =
     Some (Element (str ''article'') [] [Text (str '' Story '')]) \<and>
   page_content page_c = Some (str ''Post'')"
proof -
  let ?el = "Element (str ''div'') [str ''post-content''] [Element (str ''p'') [] [Text (str ''Post'')]]"
  have i: "(2::nat) < length SELECTORS"
    by (simp add: SELECTORS_def)
  have s2: "select_one (SELECTORS ! 2) (concat (map remove_unwanted page_c)) = Some ?el"
    by (simp add: remove_unwanted_page_c SELECTORS_def select_one_def str_def)
  have s01: "\<forall>j<2. select_one (SELECTORS ! j) (concat (map remove_unwanted page_c)) = None"
    by (simp add: remove_unwanted_page_c SELECTORS_def select_one_def str_def less_Suc_eq
      numeral_2_eq_2)
  have s3: "select_one (Tag (str ''article'')) (concat (map remove_unwanted page_c)) =
      Some (Element (str ''article'') [] [Text (str '' Story '')])"
    by (simp add: remove_unwanted_page_c select_one_def str_def)
  have g: "get_text ?el = str ''Post''"
    by (simp add: get_text_def strip_def isspace_def str_def)
  have sel2: "SELECTORS ! 2 = Class (str ''post-content'')"
    by (simp add: SELECTORS_def)
  from page_content_selector_order [of page_c] i s2 s01
  have "page_content page_c = Some (if get_text ?el \<noteq> [] then get_text ?el
      else paragraphs_text (concat (map remove_unwanted page_c)))"
    by blast
  with g have "page_content page_c = Some (str ''Post'')"
    by (simp add: str_def)
  with s2 s3 sel2 show ?thesis by simp
qed

text \<open>
  C6 as stated fails on two pages. On \<open>page_a\<close> an element of class \<open>content-body\<close>
  is there, and the content is the paragraph, not that element's text: the class is
  not among the selectors. On \<open>page_b\<close> the selector \<open>.article-body\<close> selects an element
  without text, and the content is the paragraph although a selector has matched.
\<close>

theorem page_content_counterexample:
  "select_one (Class (str ''content-body'')) (concat (map remove_unwanted page_a)) \<noteq> None \<and>
   spec_page_content page_a = Some (str ''Body'') \<and>
   page_content page_a = Some (str ''Para'') \<and>
   select_one (Class (str ''article-body'')) (concat (map remove_unwanted page_b)) \<noteq> None \<and>
   spec_page_content page_b = Some [] \<and>
   page_content page_b = Some (str ''Para'')"
  by (simp add: page_content_def spec_page_content_def page_a_def page_b_def Let_def
    SELECTORS_def SPEC_SELECTORS_def select_one_def truthy_def paragraphs_text_def find_all_def
    get_text_def strip_def isspace_def str_def UNWANTED_def)

lemma excerpt_eq:
  "excerpt content =
     (case content of None \<Rightarrow> None | Some text \<Rightarrow> if text = [] then None else Some (take 4000 text))"
  by (simp add: excerpt_def truthy_def split: option.split)

text \<open>
  Whatever \<open>fetch_article_content\<close> returns is \<open>None\<close> or a non-empty text of at most
  4000 characters, cut from the selected text or from the paragraph text.
\<close>

lemma fetch_article_content_bounds:
  "fetch_article_content enc get url = Inr (Some x) \<Longrightarrow> x \<noteq> [] \<and> length x \<le> 4000"
  by (auto simp: fetch_article_content_def try_fetch_def excerpt_eq
      split: sum.splits option.splits response.splits if_splits)

lemma fetch_article_content_page:
  "get url = Inr (Response status http_error (Inr parsed)) \<Longrightarrow>
   \<not> (400 \<le> status \<and> status < 600) \<Longrightarrow>
   fetch_article_content enc get url = Inr (excerpt (page_content parsed))"
  by (auto simp: fetch_article_content_def try_fetch_def)

text \<open>A page of 5000 characters under \<open>article\<close> gives its first 4000.\<close>

lemma fetch_article_content_long:
  "fetch_article_content enc (\<lambda>u. Inr (Response 200 [] (Inr page_long))) (str ''u'')
     = Inr (Some (replicate 4000 97))"
proof -
  have "first_selected SELECTORS (concat (map remove_unwanted page_long)) =
      Some (replicate 5000 97)"
    by (simp add: page_long_def SELECTORS_def select_one_def get_text_def strip_def isspace_def
      str_def UNWANTED_def)
  then have "page_content page_long = Some (replicate 5000 97)"
    by (simp add: page_content_eq)
  then show ?thesis
    by (simp add: fetch_article_content_def try_fetch_def excerpt_eq)
qed

lemma not_printable_cafe_url: "\<not> printable ascii cafe_url"
  by (simp add: printable_def ascii_def cafe_url_def)

lemma not_printable_surrogate_url: "\<not> printable utf8 surrogate_url"
  by (simp add: printable_def utf8_def surrogate_def surrogate_url_def)

text \<open>
  C8 fails on the code where the handler's print raises. The request raises, so the
  \<open>except\<close> branch is taken; it prints the URL before it returns \<open>None\<close>; stdout has no
  form for a character of the URL, so the print raises and \<open>fetch_article_content\<close>
  raises \<open>UnicodeEncodeError\<close> instead of returning \<open>None\<close>.
\<close>

theorem fetch_article_content_handler_raises:
  "fetch_article_content ascii failing_get cafe_url = Inl UnicodeEncodeError \<and>
   fetch_article_content utf8 failing_get surrogate_url = Inl UnicodeEncodeError"
  by (simp add: fetch_article_content_def try_fetch_def failing_get_def printable_append
      not_printable_cafe_url not_printable_surrogate_url)

section \<open>Properties of the FeedPipeline\<close>

lemma determine_hook_type_not_Inl: "determine_hook_type U t c \<noteq> Inl e"
  by (simp add: determine_hook_type_eq)

lemma process_entry_seen:
  "entry_link e = Some l \<Longrightarrow> l \<in> seen_urls s \<Longrightarrow> process_entry w s e = (s, None)"
  by (simp add: process_entry_def)

lemma process_entry_no_link:
  "entry_link e = None \<Longrightarrow> process_entry w s e = (s, Some AttributeError)"
  by (simp add: process_entry_def)

text \<open>
  An entry with a link not yet seen: the link is seen afterwards, and either nothing
  is appended and an exception is raised, or one article with the link, the title and
  the date of the entry is appended.
\<close>

lemma process_entry_unseen:
  assumes "entry_link e = Some l" and "l \<notin> seen_urls s"
  shows "\<exists>s' r. process_entry w s e = (s', r) \<and> seen_urls s' = insert l (seen_urls s) \<and>
    (all_articles s' = all_articles s \<and> r \<noteq> None \<or>
     (\<exists>a. all_articles s' = all_articles s @ [a] \<and> link a = l \<and>
        entry_title e = Some (title a) \<and>
        pubDate a = (case published e of None \<Rightarrow> [] | Some d \<Rightarrow> d)))"
  using assms
  by (auto simp: process_entry_def Let_def determine_hook_type_not_Inl
      split: sum.splits option.splits)

lemma process_entry_links_seen:
  assumes "links_seen s"
  shows "links_seen (fst (process_entry w s e))"
proof (cases "entry_link e")
  case None
  with assms show ?thesis by (simp add: process_entry_no_link)
next
  case (Some l)
  show ?thesis
  proof (cases "l \<in> seen_urls s")
    case True
    with Some assms show ?thesis by (simp add: process_entry_seen)
  next
    case False
    from process_entry_unseen [OF Some False, of w] assms False show ?thesis
      by (auto simp: links_seen_def image_subset_iff)
  qed
qed

lemma process_entry_seen_mono: "seen_urls s \<subseteq> seen_urls (fst (process_entry w s e))"
proof (cases "entry_link e")
  case None
  then show ?thesis by (simp add: process_entry_no_link)
next
  case (Some l)
  show ?thesis
  proof (cases "l \<in> seen_urls s")
    case True
    with Some show ?thesis by (simp add: process_entry_seen)
  next
    case False
    from process_entry_unseen [OF Some False, of w] show ?thesis
      by auto
  qed
qed

lemma process_entry_link_seen:
  assumes "entry_link e = Some l"
  shows "l \<in> seen_urls (fst (process_entry w s e))"
proof (cases "l \<in> seen_urls s")
  case True
  with assms show ?thesis by (simp add: process_entry_seen)
next
  case False
  from process_entry_unseen [OF assms False, of w] show ?thesis
    by auto
qed

text \<open>An entry the body has run on without an exception had a link, seen afterwards.\<close>

lemma process_entry_done:
  assumes "process_entry w s e = (s', None)"
  shows "\<exists>l. entry_link e = Some l \<and> seen_urls s' = insert l (seen_urls s)"
proof (cases "entry_link e")
  case None
  with assms show ?thesis by (simp add: process_entry_no_link)
next
  case (Some l)
  show ?thesis
  proof (cases "l \<in> seen_urls s")
    case True
    with Some assms show ?thesis by (auto simp: process_entry_seen)
  next
    case False
    from process_entry_unseen [OF Some False, of w] assms Some show ?thesis
      by auto
  qed
qed

lemma process_entries_links_seen:
  "links_seen s \<Longrightarrow> links_seen (fst (process_entries w s es))"
proof (induction es arbitrary: s)
  case Nil
  then show ?case by simp
next
  case (Cons e es)
  from Cons.prems have i: "links_seen (fst (process_entry w s e))"
    by (rule process_entry_links_seen)
  show ?case
  proof (cases "process_entry w s e")
    case (Pair s' r)
    with i have "links_seen s'" by simp
    with Pair Cons.IH [of s'] show ?thesis
      by (cases r) simp_all
  qed
qed

lemma process_entries_seen_mono: "seen_urls s \<subseteq> seen_urls (fst (process_entries w s es))"
proof (induction es arbitrary: s)
  case Nil
  then show ?case by simp
next
  case (Cons e es)
  show ?case
  proof (cases "process_entry w s e")
    case (Pair s' r)
    with process_entry_seen_mono [of s w e] have "seen_urls s \<subseteq> seen_urls s'" by simp
    with Pair Cons.IH [of s'] show ?thesis
      by (cases r) auto
  qed
qed

lemma links_seen_clock: "links_seen (s\<lparr>clock := n\<rparr>) = links_seen s"
  by (simp add: links_seen_def)

lemma process_feed_links_seen: "links_seen s \<Longrightarrow> links_seen (process_feed w s u)"
  by (simp add: process_feed_def links_seen_clock process_entries_links_seen split: sum.split)

lemma process_feed_seen_mono: "seen_urls s \<subseteq> seen_urls (process_feed w s u)"
  using process_entries_seen_mono [of "s\<lparr>clock := Suc (clock s)\<rparr>" w]
  by (auto simp: process_feed_def split: sum.split)

lemma foldl_process_feed_links_seen:
  "links_seen s \<Longrightarrow> links_seen (foldl (process_feed w) s feeds)"
  by (induction feeds arbitrary: s) (simp_all add: process_feed_links_seen)

lemma links_seen_initial: "links_seen initial"
  by (simp add: links_seen_def initial_def)

lemma distinct_map_sort_reverse: "distinct (map f (sort_reverse k xs)) = distinct (map f xs)"
  by (simp add: sort_reverse_def distinct_map)

lemma distinct_map_take: "distinct (map f xs) \<Longrightarrow> distinct (map f (take n xs))"
  using distinct_take [of "map f xs" n] by (simp add: take_map)

lemma distinct_process_feeds: "distinct (map link (process_feeds w feeds))"
  using foldl_process_feed_links_seen [OF links_seen_initial, of w feeds]
  by (simp add: process_feeds_def distinct_map_take distinct_map_sort_reverse links_seen_def)

lemma sorted_sort_reverse: "sorted_wrt (\<lambda>a b. k b \<le> k a) (sort_reverse k xs)"
proof -
  have "sorted (map k (sort_key k (rev xs)))"
    by (rule sorted_sort_key)
  then have "sorted_wrt (\<lambda>a b. k a \<le> k b) (sort_key k (rev xs))"
    by (simp add: sorted_map)
  then show ?thesis
    by (simp add: sort_reverse_def sorted_wrt_rev)
qed

lemma sorted_wrt_take_any: "sorted_wrt P xs \<Longrightarrow> sorted_wrt P (take n xs)"
  by (metis append_take_drop_id sorted_wrt_append)

lemma set_sort_reverse: "set (sort_reverse k xs) = set xs"
  by (simp add: sort_reverse_def)

lemma length_sort_reverse: "length (sort_reverse k xs) = length xs"
  by (simp add: sort_reverse_def)


lemma process_entry_parse_irrelevant:
  "process_entry (w\<lparr>feedparser_parse := f\<rparr>) s e = process_entry w s e"
  by (simp add: process_entry_def Let_def cong: option.case_cong if_cong sum.case_cong)

lemma process_entries_parse_irrelevant:
  "process_entries (w\<lparr>feedparser_parse := f\<rparr>) s es = process_entries w s es"
  by (induction es arbitrary: s) (simp_all add: process_entry_parse_irrelevant)

lemma process_feed_first_15:
  "process_feed (w\<lparr>feedparser_parse := \<lambda>n u. map_sum id (take 15) (feedparser_parse w n u)\<rparr>) s u
     = process_feed w s u"
  by (cases "feedparser_parse w (clock s) u")
    (simp_all add: process_feed_def process_entries_parse_irrelevant)

lemma process_feeds_first_15:
  "process_feeds (w\<lparr>feedparser_parse := \<lambda>n u. map_sum id (take 15) (feedparser_parse w n u)\<rparr>)
     feeds = process_feeds w feeds"
proof -
  have "process_feed
      (w\<lparr>feedparser_parse := \<lambda>n u. map_sum id (take 15) (feedparser_parse w n u)\<rparr>) =
      process_feed w"
    by (intro ext) (rule process_feed_first_15)
  then show ?thesis by (simp add: process_feeds_def)
qed

text \<open>
  Entries the loop has gone through without an exception: the loop goes on from the
  state they leave, and their links are the ones seen since.
\<close>

lemma process_entries_append:
  assumes "snd (process_entries w s pre) = None"
  shows "process_entries w s (pre @ rest) = process_entries w (fst (process_entries w s pre)) rest \<and>
    seen_urls (fst (process_entries w s pre)) = seen_urls s \<union> {l. Some l \<in> entry_link ` set pre}"
  using assms
proof (induction pre arbitrary: s)
  case Nil
  then show ?case by simp
next
  case (Cons x pre)
  obtain s' r where p: "process_entry w s x = (s', r)"
    by (cases "process_entry w s x")
  with Cons.prems have r: "r = None"
    by (cases r) simp_all
  with p process_entry_done [of w s x s'] obtain l
    where l: "entry_link x = Some l" "seen_urls s' = insert l (seen_urls s)"
    by blast
  from Cons.prems p r have "snd (process_entries w s' pre) = None"
    by simp
  from Cons.IH [OF this] p r l show ?case
    by (auto simp: image_iff)
qed

lemma first_seen_wins:
  assumes "snd (process_entries w s pre) = None" and "entry_link e = Some l"
  shows "(l \<in> seen_urls s \<or> Some l \<in> entry_link ` set pre \<longrightarrow>
      process_entries w s (pre @ [e]) = process_entries w s pre) \<and>
    (l \<notin> seen_urls s \<and> Some l \<notin> entry_link ` set pre \<longrightarrow>
      (all_articles (fst (process_entries w s (pre @ [e]))) =
         all_articles (fst (process_entries w s pre)) \<and>
       snd (process_entries w s (pre @ [e])) \<noteq> None \<or>
       (\<exists>a. all_articles (fst (process_entries w s (pre @ [e]))) =
              all_articles (fst (process_entries w s pre)) @ [a] \<and>
            link a = l \<and> entry_title e = Some (title a) \<and>
            pubDate a = (case published e of None \<Rightarrow> [] | Some d \<Rightarrow> d))))"
proof -
  let ?s = "fst (process_entries w s pre)"
  from process_entries_append [OF assms(1), of "[e]"]
  have app: "process_entries w s (pre @ [e]) = process_entries w ?s [e]"
    and seen: "seen_urls ?s = seen_urls s \<union> {l. Some l \<in> entry_link ` set pre}"
    by simp_all
  have whole: "process_entries w s pre = (?s, None)"
    using assms(1) by (cases "process_entries w s pre") simp
  show ?thesis
  proof (cases "l \<in> seen_urls ?s")
    case True
    with assms(2) have "process_entries w ?s [e] = (?s, None)"
      by (simp add: process_entry_seen)
    with app whole have "process_entries w s (pre @ [e]) = process_entries w s pre"
      by simp
    with True seen show ?thesis
      by auto
  next
    case False
    from process_entry_unseen [OF assms(2) False, of w]
    obtain s' r where p: "process_entry w ?s e = (s', r)"
      and c: "all_articles s' = all_articles ?s \<and> r \<noteq> None \<or>
        (\<exists>a. all_articles s' = all_articles ?s @ [a] \<and> link a = l \<and>
           entry_title e = Some (title a) \<and>
           pubDate a = (case published e of None \<Rightarrow> [] | Some d \<Rightarrow> d))"
      by blast
    from p have res: "process_entries w ?s [e] = (s', r)"
      by (cases r) simp_all
    from False seen have "\<not> (l \<in> seen_urls s \<or> Some l \<in> entry_link ` set pre)"
      by auto
    with c app res show ?thesis
      by auto
  qed
qed

lemma hook_snow:
  "determine_hook_type ascii_only (str ''Snow day'') (Some (str ''Schools closed'')) = Inr WEATHER"
  by (simp add: determine_hook_type_eq lower_def str_def ascii_lower_def any_in_def
    SPORTS_WORDS_def TRANSIT_WORDS_def POLITICS_WORDS_def WEATHER_WORDS_def)

lemma hook_quiet:
  "determine_hook_type ascii_only (str ''Quiet day'') (Some []) = Inr NEWS"
  by (simp add: determine_hook_type_eq lower_def str_def ascii_lower_def any_in_def
    SPORTS_WORDS_def TRANSIT_WORDS_def POLITICS_WORDS_def WEATHER_WORDS_def LOCAL_WORDS_def
    content_lower_of_def)

lemma sample_links_differ: "str ''L2'' \<noteq> str ''L1''" "str ''L3'' \<noteq> str ''L1''"
  by (simp_all add: str_def)

lemma printable_str: "printable enc (str ''Error fetching article content from '')"
  "printable enc (str ''Error generating summary for '')" "printable enc (str '': '')"
  "printable enc (str ''timed out'')" "printable enc (str ''Processed: '')"
  "printable enc (str ''...'')" "printable enc (str ''L1'')" "printable enc (str ''L2'')"
  "printable enc (str ''L3'')" "printable enc (str ''Snow day'')"
  "printable enc (str ''Quiet day'')"
  by (simp_all add: printable_def str_def)

lemma printable_take: "printable enc s \<Longrightarrow> printable enc (take n s)"
  by (auto simp: printable_def list_all_iff dest: in_set_takeD)

lemma sample_fetch:
  "fetch_article_content enc (\<lambda>u. Inl (str ''timed out'')) (str ''L1'') = Inr None"
  "fetch_article_content enc (\<lambda>u. Inl (str ''timed out'')) (str ''L2'') = Inr None"
  "fetch_article_content enc (\<lambda>u. Inl (str ''timed out'')) (str ''L3'') = Inr None"
  by (simp_all add: fetch_article_content_def try_fetch_def printable_append printable_str)

lemma sample_summary:
  "create_summary enc (\<lambda>t c. Raised (str ''timed out'')) (str ''Snow day'') c u
     = Inr (except_fallback (str ''Snow day''))"
  "create_summary enc (\<lambda>t c. Raised (str ''timed out'')) (str ''Quiet day'') c u
     = Inr (except_fallback (str ''Quiet day''))"
  by (simp_all add: create_summary_def try_summary_def printable_append printable_str)

lemma sample_run_a:
  "process_entry sample_world \<lparr>all_articles = [], seen_urls = {}, clock = Suc 0\<rparr> entry_a =
     (\<lparr>all_articles = [article_a], seen_urls = {str ''L1''}, clock = Suc (Suc 0)\<rparr>, None)"
  by (simp add: process_entry_def entry_a_def sample_world_def Let_def sample_fetch
    sample_summary truthy_def hook_snow article_a_def printable_append printable_str
    printable_take)

lemma sample_run_b:
  "process_entry sample_world
     \<lparr>all_articles = [article_a], seen_urls = {str ''L1''}, clock = Suc (Suc 0)\<rparr> entry_b =
     (\<lparr>all_articles = [article_a], seen_urls = {str ''L1''}, clock = Suc (Suc 0)\<rparr>, None)"
  by (simp add: process_entry_def entry_b_def)

lemma sample_run_c:
  "process_entry sample_world
     \<lparr>all_articles = [article_a], seen_urls = {str ''L1''}, clock = Suc (Suc 0)\<rparr> entry_c =
     (\<lparr>all_articles = [article_a, article_c], seen_urls = {str ''L2'', str ''L1''},
       clock = Suc (Suc (Suc 0))\<rparr>, None)"
  by (simp add: process_entry_def entry_c_def sample_world_def Let_def sample_fetch
    sample_summary truthy_def hook_quiet article_c_def sample_links_differ printable_append
    printable_str printable_take)

lemma sample_run:
  "fetch_and_process_feeds sample_world = [article_c, article_a]"
proof -
  have p: "feedparser_parse sample_world 0 (str ''https://www.boston.com/feed/bdc-msn-rss'') =
      Inr [entry_a, entry_b, entry_c]"
    by (simp add: sample_world_def)
  have f: "foldl (process_feed sample_world) initial RSS_FEEDS =
      \<lparr>all_articles = [article_a, article_c], seen_urls = {str ''L2'', str ''L1''},
       clock = Suc (Suc (Suc 0))\<rparr>"
    by (simp add: RSS_FEEDS_def process_feed_def initial_def p sample_run_a sample_run_b
      sample_run_c)
  have s: "sort_reverse pubDate [article_a, article_c] = [article_c, article_a]"
    by (simp add: sort_reverse_def article_a_def article_c_def str_def)
  show ?thesis
    by (simp add: fetch_and_process_feeds_def process_feeds_def f s MAX_ARTICLES_def)
qed

lemma dropped_not_newer:
  assumes "sorted_wrt (\<lambda>a b. k b \<le> k a) ys" and "a \<in> set ys" and "a \<notin> set (take n ys)"
    and "b \<in> set (take n ys)"
  shows "k a \<le> k b"
proof -
  from assms(2,3) have "a \<in> set (drop n ys)"
    by (metis Un_iff append_take_drop_id set_append)
  moreover from assms(1) have "sorted_wrt (\<lambda>a b. k b \<le> k a) (take n ys @ drop n ys)"
    by simp
  then have "\<forall>x\<in>set (take n ys). \<forall>y\<in>set (drop n ys). k y \<le> k x"
    unfolding sorted_wrt_append by blast
  ultimately show ?thesis
    using assms(4) by blast
qed

text \<open>
  C2. Whatever the feeds, the pages and the model return, the run ends and returns at
  most 12 articles (all of the collected ones when there are at most 12), in
  descending lexicographic order of \<open>pubDate\<close>; they are among the collected
  articles, and no collected article left out has a greater \<open>pubDate\<close> than one that
  is returned.
\<close>

theorem fetch_and_process_feeds_sorted:
  "length (process_feeds w feeds) \<le> 12 \<and>
   length (process_feeds w feeds) =
     min 12 (length (all_articles (foldl (process_feed w) initial feeds))) \<and>
   sorted_wrt (\<lambda>a b. pubDate b \<le> pubDate a) (process_feeds w feeds) \<and>
   set (process_feeds w feeds) \<subseteq> set (all_articles (foldl (process_feed w) initial feeds)) \<and>
   (\<forall>a \<in> set (all_articles (foldl (process_feed w) initial feeds)).
      a \<notin> set (process_feeds w feeds) \<longrightarrow>
      (\<forall>b \<in> set (process_feeds w feeds). pubDate a \<le> pubDate b)) \<and>
   length (fetch_and_process_feeds w) \<le> 12 \<and>
   sorted_wrt (\<lambda>a b. pubDate b \<le> pubDate a) (fetch_and_process_feeds w)"
proof -
  let ?all = "all_articles (foldl (process_feed w) initial feeds)"
  have out: "process_feeds w feeds = take 12 (sort_reverse pubDate ?all)"
    by (simp add: process_feeds_def MAX_ARTICLES_def)
  have srt: "sorted_wrt (\<lambda>a b. pubDate b \<le> pubDate a) (sort_reverse pubDate xs)" for xs
    by (rule sorted_sort_reverse)
  have len: "length (process_feeds w feeds) = min 12 (length ?all)"
    by (simp add: out length_sort_reverse min.commute)
  have sorted_out: "sorted_wrt (\<lambda>a b. pubDate b \<le> pubDate a) (process_feeds w feeds)" for feeds
    by (simp add: process_feeds_def sorted_wrt_take_any srt)
  have len_out: "length (process_feeds w feeds) \<le> 12" for feeds
    by (simp add: process_feeds_def MAX_ARTICLES_def)
  have sub: "set (process_feeds w feeds) \<subseteq> set ?all"
    using set_take_subset [of 12 "sort_reverse pubDate ?all"]
    by (simp add: out set_sort_reverse)
  have drop: "\<forall>a \<in> set ?all. a \<notin> set (process_feeds w feeds) \<longrightarrow>
      (\<forall>b \<in> set (process_feeds w feeds). pubDate a \<le> pubDate b)"
    unfolding out
    using dropped_not_newer [OF srt, of _ ?all 12]
    by (simp add: set_sort_reverse)
  show ?thesis
    unfolding fetch_and_process_feeds_def
    by (intro conjI len_out len sorted_out sub drop)
qed

theorem fetch_and_process_feeds_sorted_witness:
  "fetch_and_process_feeds sample_world = [article_c, article_a] \<and>
   pubDate article_a \<le> pubDate article_c"
proof -
  from fetch_and_process_feeds_sorted [of sample_world RSS_FEEDS]
  have "sorted_wrt (\<lambda>a b. pubDate b \<le> pubDate a) (fetch_and_process_feeds sample_world)"
    by blast
  then show ?thesis
    by (simp add: sample_run)
qed

text \<open>
  C3. The links of the returned articles are pairwise distinct. What a feed holds
  after its first 15 entries does not change the result. An entry whose link has
  been seen leaves the state as it is, the link of an entry the loop body has run on
  is seen afterwards, and what is seen stays seen, in the feed and across the feeds.
  So, after entries of a feed that have gone through without an exception, an entry
  whose link was seen when the feed began, or is the link of one of those entries,
  changes nothing; and an entry whose link is neither adds at most one article,
  which has its link, its title and its date, and it adds none only when an
  exception ends the feed there.
\<close>

theorem fetch_and_process_feeds_dedup:
  "distinct (map link (process_feeds w feeds)) \<and>
   distinct (map link (fetch_and_process_feeds w)) \<and>
   process_feeds (w\<lparr>feedparser_parse := \<lambda>n u. map_sum id (take 15) (feedparser_parse w n u)\<rparr>)
     feeds = process_feeds w feeds \<and>
   (\<forall>l. entry_link e = Some l \<and> l \<in> seen_urls s \<longrightarrow> process_entry w s e = (s, None)) \<and>
   (\<forall>l. entry_link e = Some l \<longrightarrow> l \<in> seen_urls (fst (process_entry w s e))) \<and>
   seen_urls s \<subseteq> seen_urls (fst (process_entry w s e)) \<and>
   seen_urls s \<subseteq> seen_urls (process_feed w s u) \<and>
   (\<forall>l. snd (process_entries w s pre) = None \<and> entry_link e = Some l \<longrightarrow>
      (l \<in> seen_urls s \<or> Some l \<in> entry_link ` set pre \<longrightarrow>
         process_entries w s (pre @ [e]) = process_entries w s pre) \<and>
      (l \<notin> seen_urls s \<and> Some l \<notin> entry_link ` set pre \<longrightarrow>
         (all_articles (fst (process_entries w s (pre @ [e]))) =
            all_articles (fst (process_entries w s pre)) \<and>
          snd (process_entries w s (pre @ [e])) \<noteq> None \<or>
          (\<exists>a. all_articles (fst (process_entries w s (pre @ [e]))) =
                 all_articles (fst (process_entries w s pre)) @ [a] \<and>
               link a = l \<and> entry_title e = Some (title a) \<and>
               pubDate a = (case published e of None \<Rightarrow> [] | Some d \<Rightarrow> d)))))"
proof -
  have a: "distinct (map link (process_feeds w feeds))" for feeds
    by (rule distinct_process_feeds)
  have c: "\<forall>l. entry_link e = Some l \<and> l \<in> seen_urls s \<longrightarrow> process_entry w s e = (s, None)"
    by (simp add: process_entry_seen)
  have d: "\<forall>l. entry_link e = Some l \<longrightarrow> l \<in> seen_urls (fst (process_entry w s e))"
    by (simp add: process_entry_link_seen)
  have f: "\<forall>l. snd (process_entries w s pre) = None \<and> entry_link e = Some l \<longrightarrow>
      (l \<in> seen_urls s \<or> Some l \<in> entry_link ` set pre \<longrightarrow>
         process_entries w s (pre @ [e]) = process_entries w s pre) \<and>
      (l \<notin> seen_urls s \<and> Some l \<notin> entry_link ` set pre \<longrightarrow>
         (all_articles (fst (process_entries w s (pre @ [e]))) =
            all_articles (fst (process_entries w s pre)) \<and>
          snd (process_entries w s (pre @ [e])) \<noteq> None \<or>
          (\<exists>a. all_articles (fst (process_entries w s (pre @ [e]))) =
                 all_articles (fst (process_entries w s pre)) @ [a] \<and>
               link a = l \<and> entry_title e = Some (title a) \<and>
               pubDate a = (case published e of None \<Rightarrow> [] | Some d \<Rightarrow> d))))"
    using first_seen_wins [of w s pre e] by blast
  show ?thesis
    unfolding fetch_and_process_feeds_def
    by (intro conjI a process_feeds_first_15 c d process_entry_seen_mono
      process_feed_seen_mono f)
qed

lemma sample_run_cafe:
  "process_entries ascii_world first_feed [entry_cafe] =
     (\<lparr>all_articles = [], seen_urls = {str ''L3''}, clock = Suc (Suc 0)\<rparr>,
      Some UnicodeEncodeError)"
  by (simp add: process_entry_def entry_cafe_def ascii_world_def sample_world_def first_feed_def
    Let_def sample_fetch truthy_def create_summary_def try_summary_def printable_append
    not_printable_cafe_title)

theorem fetch_and_process_feeds_dedup_witness:
  "entry_link entry_a = entry_link entry_b \<and>
   process_entries sample_world first_feed ([entry_a] @ [entry_b]) =
     process_entries sample_world first_feed [entry_a] \<and>
   map link (fetch_and_process_feeds sample_world) = [str ''L2'', str ''L1''] \<and>
   all_articles (fst (process_entries ascii_world first_feed ([] @ [entry_cafe]))) =
     all_articles (fst (process_entries ascii_world first_feed [])) \<and>
   snd (process_entries ascii_world first_feed ([] @ [entry_cafe])) \<noteq> None"
proof -
  have h: "snd (process_entries sample_world first_feed [entry_a]) = None \<and>
      entry_link entry_b = Some (str ''L1'')"
    by (simp add: first_feed_def sample_run_a entry_b_def)
  have i: "str ''L1'' \<in> seen_urls first_feed \<or> Some (str ''L1'') \<in> entry_link ` set [entry_a]"
    by (simp add: entry_a_def)
  have e: "entry_link entry_a = entry_link entry_b"
    by (simp add: entry_a_def entry_b_def)
  from fetch_and_process_feeds_dedup
    [of sample_world RSS_FEEDS entry_b first_feed _ "[entry_a]"] h i
  have skip: "process_entries sample_world first_feed ([entry_a] @ [entry_b]) =
      process_entries sample_world first_feed [entry_a]"
    by blast
  have out: "map link (fetch_and_process_feeds sample_world) = [str ''L2'', str ''L1'']"
    by (simp add: sample_run article_a_def article_c_def)
  have cafe: "all_articles (fst (process_entries ascii_world first_feed ([] @ [entry_cafe]))) =
      all_articles (fst (process_entries ascii_world first_feed [])) \<and>
    snd (process_entries ascii_world first_feed ([] @ [entry_cafe])) \<noteq> None"
    by (simp only: append_Nil sample_run_cafe) (simp add: first_feed_def)
  from e skip out cafe show ?thesis by (intro conjI) simp_all
qed

section \<open>Properties of Persistence\<close>

lemma existing_links_Entry: "existing_links (map Entry old) = Inr (map link old)"
  by (induction old) simp_all

lemma existing_links_Inr:
  "existing_links es = Inr ls \<Longrightarrow> \<exists>old. es = map Entry old \<and> ls = map link old"
proof (induction es arbitrary: ls rule: existing_links.induct)
  case 1
  then show ?case by simp
next
  case (2 a es)
  from "2.prems" obtain ls' where ls': "existing_links es = Inr ls'" "ls = link a # ls'"
    by (auto split: sum.splits)
  from "2.IH" [OF ls'(1)] obtain old where "es = map Entry old" "ls' = map link old"
    by blast
  with ls' have "Entry a # es = map Entry (a # old) \<and> ls = map link (a # old)"
    by simp
  then show ?case by (rule exI [of _ "a # old"])
next
  case (3 es)
  then show ?case by simp
next
  case (4 es)
  then show ?case by simp
qed

lemma write_json_Done: "write_json d ok = Done \<longleftrightarrow> d = Disk_ok \<and> ok"
  by (cases d) (simp_all add: write_json_def)

lemma write_json_cases:
  "write_json d ok = Done \<or> (\<exists>e. write_json d ok = Refused e) \<or> (\<exists>e. write_json d ok = Broken e)"
  by (cases "write_json d ok") simp_all

lemma encodable_version: "encodable (str ''2.0'')"
  by (simp add: encodable_def str_def surrogate_def)

lemma new_snapshot_encodable:
  "news_data_encodable (new_snapshot now arts) \<longleftrightarrow> encodable now \<and> list_all article_encodable arts"
  by (auto simp: news_data_encodable_def new_snapshot_def encodable_version)

lemma new_snapshot_fields:
  "articles (new_snapshot now arts) = arts"
  "lastUpdated (new_snapshot now arts) = now"
  "totalArticles (stats (new_snapshot now arts)) = length arts"
  by (simp_all add: new_snapshot_def)

text \<open>The history that is written: its fields, and when its text can be encoded.\<close>

lemma merge_history_fields:
  "history_articles (merge_history now arts h (map Entry old) (map link old)) =
     Some (Entries (map Entry (take 50 (new_unique arts old @ old))))"
  "history_lastUpdated (merge_history now arts h es ls) = Some now"
  "history_totalArticles (merge_history now arts h (map Entry old) (map link old)) =
     Some (length (take 50 (new_unique arts old @ old)))"
  by (simp_all add: merge_history_def Let_def new_unique_def take_map)

lemma list_all_take: "list_all P xs \<Longrightarrow> list_all P (take n xs)"
  by (auto simp: list_all_iff dest: in_set_takeD)

lemma entries_encodable:
  "list_all article_encodable xs \<Longrightarrow> list_all entry_encodable (map Entry xs)"
  by (induction xs) simp_all

lemma merge_history_encodable:
  assumes "encodable now" and "list_all article_encodable arts"
    and "list_all article_encodable old"
  shows "history_encodable (merge_history now arts h (map Entry old) (map link old))"
proof -
  from assms(2) have "list_all article_encodable (new_unique arts old)"
    by (simp add: new_unique_def list_all_iff)
  with assms(3) have "list_all article_encodable (take 50 (new_unique arts old @ old))"
    by (intro list_all_take) simp
  then have "list_all entry_encodable (map Entry (take 50 (new_unique arts old @ old)))"
    by (rule entries_encodable)
  with assms(1) show ?thesis
    by (simp add: history_encodable_def merge_history_fields)
qed

lemma distinct_merge:
  assumes "distinct (map link arts)" and "distinct (map link old)"
  shows "distinct (map link (take 50 (new_unique arts old @ old)))"
proof -
  have "distinct (map link (new_unique arts old))"
    using assms(1) by (simp add: new_unique_def distinct_map_filter)
  moreover have "set (map link (new_unique arts old)) \<inter> set (map link old) = {}"
    by (auto simp: new_unique_def)
  ultimately have "distinct (map link (new_unique arts old @ old))"
    using assms(2) by simp
  then have "distinct (take 50 (map link (new_unique arts old @ old)))"
    by (rule distinct_take)
  then show ?thesis
    by (simp only: take_map)
qed

text \<open>\<open>save_data\<close>, by what becomes of the first write and by what the history file is.\<close>

lemma save_data_refused:
  "write_json (news_data_disk fs) (news_data_encodable (new_snapshot now arts)) = Refused e \<Longrightarrow>
   save_data now arts fs = (fs, Some e)"
  by (simp add: save_data_def)

lemma save_data_broken:
  "write_json (news_data_disk fs) (news_data_encodable (new_snapshot now arts)) = Broken e \<Longrightarrow>
   save_data now arts fs = (fs\<lparr>news_data_json := Cut_off\<rparr>, Some e)"
  by (simp add: save_data_def)

lemma save_data_done:
  "write_json (news_data_disk fs) (news_data_encodable (new_snapshot now arts)) = Done \<Longrightarrow>
   save_data now arts fs =
     (case news_history_json fs of
        Absent \<Rightarrow>
          store_history now arts (fs\<lparr>news_data_json := Snapshot (new_snapshot now arts)\<rparr>)
            EMPTY_HISTORY
      | Unreadable \<Rightarrow>
          (fs\<lparr>news_data_json := Snapshot (new_snapshot now arts)\<rparr>, Some PermissionError)
      | Malformed \<Rightarrow>
          (fs\<lparr>news_data_json := Snapshot (new_snapshot now arts)\<rparr>, Some JSONDecodeError)
      | Not_object \<Rightarrow>
          (fs\<lparr>news_data_json := Snapshot (new_snapshot now arts)\<rparr>, Some AttributeError)
      | Document h \<Rightarrow>
          store_history now arts (fs\<lparr>news_data_json := Snapshot (new_snapshot now arts)\<rparr>) h)"
  by (simp add: save_data_def load_history_def Let_def split: history_file.split)

lemma store_history_snapshot:
  "news_data_json (fst (store_history now arts fs h)) = news_data_json fs"
  by (simp add: store_history_def Let_def split: sum.split written.split)

lemma holds_history_starting:
  assumes "holds_history f old"
  shows "get_articles (starting_history f) = Inr (map Entry old) \<and>
    (f = Absent \<or> f = Document (starting_history f))"
  using assms
  by (cases f)
    (auto simp: holds_history_def starting_history_def get_articles_def EMPTY_HISTORY_def
      split: option.splits)

lemma store_history_holds:
  assumes "get_articles h = Inr (map Entry old)"
  shows "store_history now arts fs h =
    (case write_json (news_history_disk fs)
            (history_encodable (merge_history now arts h (map Entry old) (map link old))) of
       Done \<Rightarrow>
         (fs\<lparr>news_history_json :=
               Document (merge_history now arts h (map Entry old) (map link old))\<rparr>, None)
     | Refused e \<Rightarrow> (fs, Some e)
     | Broken e \<Rightarrow> (fs\<lparr>news_history_json := Malformed\<rparr>, Some e))"
  using assms by (simp add: store_history_def existing_links_Entry Let_def)

lemma get_articles_Inr:
  assumes "get_articles h = Inr es" and "existing_links es = Inr ls"
  shows "\<exists>old. get_articles h = Inr (map Entry old) \<and> es = map Entry old \<and> ls = map link old"
  using existing_links_Inr [OF assms(2)] assms(1) by auto

text \<open>
  What \<open>store_history\<close> leaves of the history file: the file as it was or cut off,
  with an exception, or a document whose counter is the length of its list.
\<close>

lemma store_history_result:
  assumes "store_history now arts fs h = (fs', e)"
  shows "news_history_json fs' = news_history_json fs \<and> e \<noteq> None \<or>
    news_history_json fs' = Malformed \<and> e \<noteq> None \<or>
    (\<exists>old. get_articles h = Inr (map Entry old) \<and> e = None \<and>
       fs' = fs\<lparr>news_history_json :=
                  Document (merge_history now arts h (map Entry old) (map link old))\<rparr>)"
proof (cases "get_articles h")
  case (Inl x)
  with assms show ?thesis by (auto simp: store_history_def)
next
  case (Inr es)
  show ?thesis
  proof (cases "existing_links es")
    case (Inl x)
    with Inr assms show ?thesis by (auto simp: store_history_def)
  next
    case links: (Inr ls)
    from get_articles_Inr [OF Inr links] obtain old
      where old: "get_articles h = Inr (map Entry old)"
      by blast
    from assms show ?thesis
      unfolding store_history_holds [OF old]
      using old by (auto split: written.splits)
  qed
qed

lemma save_data_None:
  assumes "save_data now arts fs = (fs', None)"
  shows "\<exists>old. holds_history (news_history_json fs) old \<and>
    fs' = fs\<lparr>news_data_json := Snapshot (new_snapshot now arts),
              news_history_json :=
                Document (merge_history now arts (starting_history (news_history_json fs))
                  (map Entry old) (map link old))\<rparr>"
proof -
  let ?fs1 = "fs\<lparr>news_data_json := Snapshot (new_snapshot now arts)\<rparr>"
  from write_json_cases [of "news_data_disk fs" "news_data_encodable (new_snapshot now arts)"]
    assms
  have d: "write_json (news_data_disk fs) (news_data_encodable (new_snapshot now arts)) = Done"
    by (auto simp: save_data_refused save_data_broken)
  from assms have ok: "news_history_json fs = Absent \<or>
      news_history_json fs = Document (starting_history (news_history_json fs))"
    unfolding save_data_done [OF d]
    by (cases "news_history_json fs") (simp_all add: starting_history_def)
  with assms have st: "store_history now arts ?fs1 (starting_history (news_history_json fs)) =
      (fs', None)"
    unfolding save_data_done [OF d]
    by (cases "news_history_json fs") (simp_all add: starting_history_def)
  from store_history_result [OF st] obtain old
    where old: "get_articles (starting_history (news_history_json fs)) = Inr (map Entry old)"
      and fs': "fs' = ?fs1\<lparr>news_history_json :=
        Document (merge_history now arts (starting_history (news_history_json fs))
          (map Entry old) (map link old))\<rparr>"
    by auto
  from ok old have "holds_history (news_history_json fs) old"
    by (cases "news_history_json fs")
      (auto simp: holds_history_def starting_history_def get_articles_def EMPTY_HISTORY_def
        split: option.splits articles_value.splits)
  with fs' show ?thesis by auto
qed

lemma save_data_succeeds:
  assumes "holds_history (news_history_json fs) old"
    and "news_data_disk fs = Disk_ok" and "news_history_disk fs = Disk_ok"
    and "encodable now" and "list_all article_encodable arts"
    and "list_all article_encodable old"
  shows "save_data now arts fs =
    (fs\<lparr>news_data_json := Snapshot (new_snapshot now arts),
        news_history_json :=
          Document (merge_history now arts (starting_history (news_history_json fs))
            (map Entry old) (map link old))\<rparr>, None)"
proof -
  from assms(2,4,5)
  have d: "write_json (news_data_disk fs) (news_data_encodable (new_snapshot now arts)) = Done"
    by (simp add: write_json_Done new_snapshot_encodable)
  from holds_history_starting [OF assms(1)]
  have g: "get_articles (starting_history (news_history_json fs)) = Inr (map Entry old)"
    and f: "news_history_json fs = Absent \<or>
      news_history_json fs = Document (starting_history (news_history_json fs))"
    by simp_all
  have w: "write_json Disk_ok (history_encodable (merge_history now arts
      (starting_history (news_history_json fs)) (map Entry old) (map link old))) = Done"
    by (simp add: write_json_Done merge_history_encodable [OF assms(4,5,6)])
  from f have "save_data now arts fs =
      store_history now arts (fs\<lparr>news_data_json := Snapshot (new_snapshot now arts)\<rparr>)
        (starting_history (news_history_json fs))"
    unfolding save_data_done [OF d]
    by (cases "news_history_json fs") (simp_all add: starting_history_def)
  then show ?thesis
    by (simp add: store_history_holds [OF g] assms(3) w)
qed

lemma holds_history_unique:
  assumes "holds_history f old" and "holds_history f old'"
  shows "old = old'"
proof -
  have "inj Entry"
    by (simp add: inj_def)
  then have "map Entry old = map Entry old' \<Longrightarrow> old = old'"
    by (simp add: inj_map_eq_map)
  with assms show ?thesis
    by (cases f) (auto simp: holds_history_def split: option.splits)
qed

text \<open>
  What \<open>save_data\<close> leaves, in every case: nothing changed, or the snapshot cut off,
  or the new snapshot written and then the history as it was, cut off, or merged.
\<close>

lemma save_data_result:
  assumes "save_data now arts fs = (fs', e)"
  shows "fs' = fs \<and> e \<noteq> None \<or>
    fs' = fs\<lparr>news_data_json := Cut_off\<rparr> \<and> e \<noteq> None \<or>
    news_data_json fs' = Snapshot (new_snapshot now arts) \<and>
      (news_history_json fs' = news_history_json fs \<and> e \<noteq> None \<or>
       news_history_json fs' = Malformed \<and> e \<noteq> None \<or>
       (\<exists>h old. news_history_json fs' =
            Document (merge_history now arts h (map Entry old) (map link old)) \<and> e = None))"
proof -
  let ?fs1 = "fs\<lparr>news_data_json := Snapshot (new_snapshot now arts)\<rparr>"
  from write_json_cases [of "news_data_disk fs" "news_data_encodable (new_snapshot now arts)"]
  consider (written) "write_json (news_data_disk fs) (news_data_encodable (new_snapshot now arts))
      = Done"
    | (refused) x where "write_json (news_data_disk fs)
        (news_data_encodable (new_snapshot now arts)) = Refused x"
    | (broken) x where "write_json (news_data_disk fs)
        (news_data_encodable (new_snapshot now arts)) = Broken x"
    by blast
  then show ?thesis
  proof cases
    case refused
    with assms show ?thesis by (auto simp: save_data_refused)
  next
    case broken
    with assms show ?thesis by (auto simp: save_data_broken)
  next
    case written
    have stored: ?thesis if st: "store_history now arts ?fs1 h = (fs', e)" for h
    proof -
      from store_history_snapshot [of now arts ?fs1 h] st
      have snap: "news_data_json fs' = Snapshot (new_snapshot now arts)"
        by simp
      from store_history_result [OF st]
      consider "news_history_json fs' = news_history_json fs \<and> e \<noteq> None"
        | "news_history_json fs' = Malformed \<and> e \<noteq> None"
        | old where "e = None" "fs' = ?fs1\<lparr>news_history_json :=
            Document (merge_history now arts h (map Entry old) (map link old))\<rparr>"
        by auto
      then have "news_history_json fs' = news_history_json fs \<and> e \<noteq> None \<or>
          news_history_json fs' = Malformed \<and> e \<noteq> None \<or>
          (\<exists>h old. news_history_json fs' =
              Document (merge_history now arts h (map Entry old) (map link old)) \<and> e = None)"
      proof cases
        case 1
        then show ?thesis by blast
      next
        case 2
        then show ?thesis by blast
      next
        case 3
        then have "news_history_json fs' =
            Document (merge_history now arts h (map Entry old) (map link old)) \<and> e = None"
          by simp
        then show ?thesis by blast
      qed
      with snap show ?thesis by blast
    qed
    from assms have s: "(case news_history_json fs of
        Absent \<Rightarrow> store_history now arts ?fs1 EMPTY_HISTORY
      | Unreadable \<Rightarrow> (?fs1, Some PermissionError)
      | Malformed \<Rightarrow> (?fs1, Some JSONDecodeError)
      | Not_object \<Rightarrow> (?fs1, Some AttributeError)
      | Document h \<Rightarrow> store_history now arts ?fs1 h) = (fs', e)"
      unfolding save_data_done [OF written] .
    show ?thesis
    proof (cases "news_history_json fs")
      case Absent
      with s have "store_history now arts ?fs1 EMPTY_HISTORY = (fs', e)"
        by simp
      then show ?thesis by (rule stored)
    next
      case Unreadable
      with s show ?thesis by auto
    next
      case Malformed
      with s show ?thesis by auto
    next
      case Not_object
      with s show ?thesis by auto
    next
      case (Document h)
      with s have "store_history now arts ?fs1 h = (fs', e)"
        by simp
      then show ?thesis by (rule stored)
    qed
  qed
qed

text \<open>
  C4. A call of \<open>save_data\<close> ends without exception only from a history that is a list
  of articles (the empty list when the file is absent), and then the history file
  holds the first 50 of the new articles (the input articles whose link is not in
  that list) followed by that list, with the time of the run as \<open>lastUpdated\<close>. Those
  are at most 50, and their links are pairwise distinct when those of the input and
  those of the prior history are. From such a history, the call does end without
  exception when both files can be written and every string can be encoded, whether
  or not any input article is new.
\<close>

theorem save_data_merge:
  "(\<forall>fs'. save_data now arts fs = (fs', None) \<longrightarrow>
      (\<exists>old. holds_history (news_history_json fs) old)) \<and>
   (\<forall>old. holds_history (news_history_json fs) old \<longrightarrow>
      (\<forall>fs'. save_data now arts fs = (fs', None) \<longrightarrow>
         (\<exists>h'. news_history_json fs' = Document h' \<and>
            history_articles h' =
              Some (Entries (map Entry (take 50 (new_unique arts old @ old)))) \<and>
            history_lastUpdated h' = Some now)) \<and>
      length (take 50 (new_unique arts old @ old)) \<le> 50 \<and>
      (distinct (map link arts) \<and> distinct (map link old) \<longrightarrow>
         distinct (map link (take 50 (new_unique arts old @ old)))) \<and>
      (news_data_disk fs = Disk_ok \<and> news_history_disk fs = Disk_ok \<and> encodable now \<and>
       list_all article_encodable arts \<and> list_all article_encodable old \<longrightarrow>
         (\<exists>fs'. save_data now arts fs = (fs', None))))"
proof -
  have a: "\<forall>fs'. save_data now arts fs = (fs', None) \<longrightarrow>
      (\<exists>old. holds_history (news_history_json fs) old)"
    using save_data_None [of now arts fs] by blast
  have b: "\<exists>h'. news_history_json fs' = Document h' \<and>
      history_articles h' = Some (Entries (map Entry (take 50 (new_unique arts old @ old)))) \<and>
      history_lastUpdated h' = Some now"
    if h: "holds_history (news_history_json fs) old" and s: "save_data now arts fs = (fs', None)"
    for old fs'
  proof -
    from save_data_None [OF s] obtain old'
      where h': "holds_history (news_history_json fs) old'"
        and fs': "fs' = fs\<lparr>news_data_json := Snapshot (new_snapshot now arts),
          news_history_json :=
            Document (merge_history now arts (starting_history (news_history_json fs))
              (map Entry old') (map link old'))\<rparr>"
      by blast
    from holds_history_unique [OF h h'] fs' show ?thesis
      by (simp add: merge_history_fields)
  qed
  have c: "length (take 50 (new_unique arts old @ old)) \<le> 50" for old
    by simp
  have d: "distinct (map link arts) \<and> distinct (map link old) \<longrightarrow>
      distinct (map link (take 50 (new_unique arts old @ old)))" for old
    using distinct_merge [of arts old] by blast
  have e: "\<exists>fs'. save_data now arts fs = (fs', None)"
    if "holds_history (news_history_json fs) old"
      "news_data_disk fs = Disk_ok \<and> news_history_disk fs = Disk_ok \<and> encodable now \<and>
       list_all article_encodable arts \<and> list_all article_encodable old" for old
    using save_data_succeeds [of fs old now arts] that by blast
  from a b c d e show ?thesis
    by blast
qed

lemma old_files_holds:
  "holds_history (news_history_json old_files) [art ''L1'' ''2024-01-02'', art ''L2'' ''2024-01-01'']"
  by (simp add: holds_history_def old_files_def old_history_def)

lemma encodable_str: "encodable (str s)"
proof -
  have "\<not> surrogate (of_char c)" for c
  proof -
    have "of_char c < (256::nat)"
      by simp
    then show ?thesis
      unfolding surrogate_def by linarith
  qed
  then show ?thesis
    by (simp add: encodable_def str_def list_all_iff)
qed

lemma art_encodable: "article_encodable (art l d)"
  by (simp add: article_encodable_def art_def encodable_str)

theorem save_data_merge_witness:
  "(\<exists>fs' h'. save_data (str ''t1'') [art ''L3'' ''2024-01-03'', art ''L1'' ''2024-01-02''] old_files
      = (fs', None) \<and> news_history_json fs' = Document h' \<and>
      history_articles h' =
        Some (Entries [Entry (art ''L3'' ''2024-01-03''), Entry (art ''L1'' ''2024-01-02''),
          Entry (art ''L2'' ''2024-01-01'')])) \<and>
   (\<exists>fs' h'. save_data (str ''t1'') [art ''L1'' ''2024-01-02''] old_files = (fs', None) \<and>
      news_history_json fs' = Document h' \<and>
      history_articles h' =
        Some (Entries [Entry (art ''L1'' ''2024-01-02''), Entry (art ''L2'' ''2024-01-01'')]) \<and>
      history_lastUpdated h' = Some (str ''t1''))"
proof -
  let ?old = "[art ''L1'' ''2024-01-02'', art ''L2'' ''2024-01-01'']"
  have ok: "news_data_disk old_files = Disk_ok \<and> news_history_disk old_files = Disk_ok \<and>
      encodable (str ''t1'') \<and> list_all article_encodable ?old"
    by (simp add: old_files_def art_encodable encodable_str)
  have a1: "list_all article_encodable [art ''L3'' ''2024-01-03'', art ''L1'' ''2024-01-02'']"
    by (simp add: art_encodable)
  have a2: "list_all article_encodable [art ''L1'' ''2024-01-02'']"
    by (simp add: art_encodable)
  have n1: "map Entry (take 50 (new_unique [art ''L3'' ''2024-01-03'', art ''L1'' ''2024-01-02'']
        ?old @ ?old)) =
      [Entry (art ''L3'' ''2024-01-03''), Entry (art ''L1'' ''2024-01-02''),
       Entry (art ''L2'' ''2024-01-01'')]"
    by (simp add: art_def str_def new_unique_def)
  have n2: "map Entry (take 50 (new_unique [art ''L1'' ''2024-01-02''] ?old @ ?old)) =
      [Entry (art ''L1'' ''2024-01-02''), Entry (art ''L2'' ''2024-01-01'')]"
    by (simp add: art_def str_def new_unique_def)
  note t1 = save_data_merge
    [of "str ''t1''" "[art ''L3'' ''2024-01-03'', art ''L1'' ''2024-01-02'']" old_files]
  note t2 = save_data_merge [of "str ''t1''" "[art ''L1'' ''2024-01-02'']" old_files]
  from t1 old_files_holds ok a1 obtain fs1
    where s1: "save_data (str ''t1'') [art ''L3'' ''2024-01-03'', art ''L1'' ''2024-01-02'']
      old_files = (fs1, None)"
    by blast
  from t1 old_files_holds s1 obtain h1 where "news_history_json fs1 = Document h1"
    "history_articles h1 = Some (Entries (map Entry (take 50
      (new_unique [art ''L3'' ''2024-01-03'', art ''L1'' ''2024-01-02''] ?old @ ?old))))"
    by blast
  with s1 have a: "\<exists>fs' h'. save_data (str ''t1'')
      [art ''L3'' ''2024-01-03'', art ''L1'' ''2024-01-02''] old_files = (fs', None) \<and>
      news_history_json fs' = Document h' \<and>
      history_articles h' =
        Some (Entries [Entry (art ''L3'' ''2024-01-03''), Entry (art ''L1'' ''2024-01-02''),
          Entry (art ''L2'' ''2024-01-01'')])"
    unfolding n1 by blast
  from t2 old_files_holds ok a2 obtain fs2
    where s2: "save_data (str ''t1'') [art ''L1'' ''2024-01-02''] old_files = (fs2, None)"
    by blast
  from t2 old_files_holds s2 obtain h2 where "news_history_json fs2 = Document h2"
    "history_articles h2 = Some (Entries (map Entry (take 50
      (new_unique [art ''L1'' ''2024-01-02''] ?old @ ?old))))"
    "history_lastUpdated h2 = Some (str ''t1'')"
    by blast
  with s2 have b: "\<exists>fs' h'. save_data (str ''t1'') [art ''L1'' ''2024-01-02''] old_files
      = (fs', None) \<and> news_history_json fs' = Document h' \<and>
      history_articles h' =
        Some (Entries [Entry (art ''L1'' ''2024-01-02''), Entry (art ''L2'' ''2024-01-01'')]) \<and>
      history_lastUpdated h' = Some (str ''t1'')"
    unfolding n2 by blast
  from a b show ?thesis by (rule conjI)
qed

text \<open>
  An article whose title holds a lone surrogate: the write of the snapshot raises and
  leaves the file cut off, and the history is not reached.
\<close>

lemma save_data_surrogate:
  "save_data (str ''t1'') [surrogate_article] no_files =
     (no_files\<lparr>news_data_json := Cut_off\<rparr>, Some UnicodeEncodeError)"
proof -
  have "\<not> article_encodable surrogate_article"
    by (simp add: article_encodable_def surrogate_article_def surrogate_title_def encodable_def
      surrogate_def)
  then have "write_json (news_data_disk no_files)
      (news_data_encodable (new_snapshot (str ''t1'') [surrogate_article]))
        = Broken UnicodeEncodeError"
    by (simp add: write_json_def no_files_def news_data_encodable_def new_snapshot_def)
  then show ?thesis
    by (rule save_data_broken)
qed

text \<open>
  C5 as stated fails: the snapshot is written, the history file is there but is not
  JSON, or cannot be read, and \<open>save_data\<close> raises.
\<close>

theorem save_data_read_failure_counterexample:
  "snd (save_data (str ''t1'') [art ''L1'' ''2024-01-02''] corrupt_files) = Some JSONDecodeError \<and>
   snd (save_data (str ''t1'') [art ''L1'' ''2024-01-02''] locked_files) = Some PermissionError"
  by (simp add: save_data_def write_json_def corrupt_files_def locked_files_def
      new_snapshot_encodable art_encodable encodable_str load_history_def Let_def)

lemma merge_empty_history:
  "merge_history now arts EMPTY_HISTORY [] [] =
     \<lparr>history_articles = Some (Entries (map Entry (take 50 arts))),
      history_lastUpdated = Some now,
      history_totalArticles = Some (length (take 50 arts))\<rparr>"
  by (simp add: merge_history_def EMPTY_HISTORY_def Let_def take_map)

lemma store_empty_history:
  "store_history now arts fs EMPTY_HISTORY =
     (case write_json (news_history_disk fs)
             (history_encodable (merge_history now arts EMPTY_HISTORY [] [])) of
        Done \<Rightarrow>
          (fs\<lparr>news_history_json := Document (merge_history now arts EMPTY_HISTORY [] [])\<rparr>,
           None)
      | Refused e \<Rightarrow> (fs, Some e)
      | Broken e \<Rightarrow> (fs\<lparr>news_history_json := Malformed\<rparr>, Some e))"
proof -
  have "get_articles EMPTY_HISTORY = Inr (map Entry [])"
    by (simp add: get_articles_def EMPTY_HISTORY_def)
  from store_history_holds [OF this, of now arts fs, unfolded list.map(1)] show ?thesis .
qed

text \<open>
  C5 (as amended). Take a call in which the snapshot is written. When the history
  file is absent, \<open>save_data\<close> goes on from the empty history, \<open>FileNotFoundError\<close> is
  not what it raises, and when the history file can be written it ends without
  exception, the history holding the first 50 input articles. When the history
  file is there but unreadable, is not JSON, or holds JSON that is no object, the
  exception of the read leaves \<open>save_data\<close>: the files are as they were but for the
  new snapshot.
\<close>

theorem save_data_absent_history:
  "news_data_disk fs = Disk_ok \<and> encodable now \<and> list_all article_encodable arts \<longrightarrow>
     (news_history_json fs = Absent \<longrightarrow>
        save_data now arts fs =
          store_history now arts (fs\<lparr>news_data_json := Snapshot (new_snapshot now arts)\<rparr>)
            EMPTY_HISTORY \<and>
        snd (save_data now arts fs) \<noteq> Some FileNotFoundError \<and>
        (news_history_disk fs = Disk_ok \<longrightarrow>
           save_data now arts fs =
             (fs\<lparr>news_data_json := Snapshot (new_snapshot now arts),
                 news_history_json :=
                   Document \<lparr>history_articles = Some (Entries (map Entry (take 50 arts))),
                             history_lastUpdated = Some now,
                             history_totalArticles = Some (length (take 50 arts))\<rparr>\<rparr>,
              None))) \<and>
     (news_history_json fs = Unreadable \<longrightarrow>
        save_data now arts fs =
          (fs\<lparr>news_data_json := Snapshot (new_snapshot now arts)\<rparr>, Some PermissionError)) \<and>
     (news_history_json fs = Malformed \<longrightarrow>
        save_data now arts fs =
          (fs\<lparr>news_data_json := Snapshot (new_snapshot now arts)\<rparr>, Some JSONDecodeError)) \<and>
     (news_history_json fs = Not_object \<longrightarrow>
        save_data now arts fs =
          (fs\<lparr>news_data_json := Snapshot (new_snapshot now arts)\<rparr>, Some AttributeError))"
proof (intro impI, elim conjE)
  let ?fs1 = "fs\<lparr>news_data_json := Snapshot (new_snapshot now arts)\<rparr>"
  assume disk: "news_data_disk fs = Disk_ok" and now: "encodable now"
    and arts: "list_all article_encodable arts"
  then have d: "write_json (news_data_disk fs) (news_data_encodable (new_snapshot now arts))
      = Done"
    by (simp add: write_json_Done new_snapshot_encodable)
  have enc: "history_encodable (merge_history now arts EMPTY_HISTORY [] [])"
    using merge_history_encodable [OF now arts, of "[]" EMPTY_HISTORY] by simp
  have absent: "save_data now arts fs = store_history now arts ?fs1 EMPTY_HISTORY"
    if "news_history_json fs = Absent"
    using that by (simp add: save_data_done [OF d])
  have not_fnf: "snd (store_history now arts ?fs1 EMPTY_HISTORY) \<noteq> Some FileNotFoundError"
    by (cases "news_history_disk fs") (simp_all add: store_empty_history write_json_def enc)
  have written: "store_history now arts ?fs1 EMPTY_HISTORY =
      (fs\<lparr>news_data_json := Snapshot (new_snapshot now arts),
          news_history_json :=
            Document \<lparr>history_articles = Some (Entries (map Entry (take 50 arts))),
                      history_lastUpdated = Some now,
                      history_totalArticles = Some (length (take 50 arts))\<rparr>\<rparr>, None)"
    if "news_history_disk fs = Disk_ok"
    using that enc by (simp add: store_empty_history write_json_def merge_empty_history)
  have others: "news_history_json fs = Unreadable \<longrightarrow>
      save_data now arts fs = (?fs1, Some PermissionError)"
    "news_history_json fs = Malformed \<longrightarrow>
      save_data now arts fs = (?fs1, Some JSONDecodeError)"
    "news_history_json fs = Not_object \<longrightarrow>
      save_data now arts fs = (?fs1, Some AttributeError)"
    by (simp_all add: save_data_done [OF d])
  show "(news_history_json fs = Absent \<longrightarrow>
        save_data now arts fs = store_history now arts ?fs1 EMPTY_HISTORY \<and>
        snd (save_data now arts fs) \<noteq> Some FileNotFoundError \<and>
        (news_history_disk fs = Disk_ok \<longrightarrow>
           save_data now arts fs =
             (fs\<lparr>news_data_json := Snapshot (new_snapshot now arts),
                 news_history_json :=
                   Document \<lparr>history_articles = Some (Entries (map Entry (take 50 arts))),
                             history_lastUpdated = Some now,
                             history_totalArticles = Some (length (take 50 arts))\<rparr>\<rparr>,
              None))) \<and>
     (news_history_json fs = Unreadable \<longrightarrow>
        save_data now arts fs = (?fs1, Some PermissionError)) \<and>
     (news_history_json fs = Malformed \<longrightarrow>
        save_data now arts fs = (?fs1, Some JSONDecodeError)) \<and>
     (news_history_json fs = Not_object \<longrightarrow>
        save_data now arts fs = (?fs1, Some AttributeError))"
    using absent not_fnf written others by simp
qed

theorem save_data_absent_history_witness:
  "save_data (str ''t1'') [art ''L1'' ''2024-01-02''] no_files =
     (no_files\<lparr>news_data_json := Snapshot (new_snapshot (str ''t1'') [art ''L1'' ''2024-01-02'']),
        news_history_json :=
          Document \<lparr>history_articles = Some (Entries [Entry (art ''L1'' ''2024-01-02'')]),
                    history_lastUpdated = Some (str ''t1''),
                    history_totalArticles = Some 1\<rparr>\<rparr>, None) \<and>
   save_data (str ''t1'') [art ''L1'' ''2024-01-02''] corrupt_files =
     (corrupt_files\<lparr>news_data_json :=
        Snapshot (new_snapshot (str ''t1'') [art ''L1'' ''2024-01-02''])\<rparr>, Some JSONDecodeError)"
proof -
  have ok1: "news_data_disk no_files = Disk_ok \<and> encodable (str ''t1'') \<and>
      list_all article_encodable [art ''L1'' ''2024-01-02'']"
    by (simp add: no_files_def encodable_str art_encodable)
  have ok2: "news_data_disk corrupt_files = Disk_ok \<and> encodable (str ''t1'') \<and>
      list_all article_encodable [art ''L1'' ''2024-01-02'']"
    by (simp add: corrupt_files_def encodable_str art_encodable)
  have ab: "news_history_json no_files = Absent \<and> news_history_disk no_files = Disk_ok"
    by (simp add: no_files_def)
  have co: "news_history_json corrupt_files = Malformed"
    by (simp add: corrupt_files_def)
  from save_data_absent_history [of no_files "str ''t1''" "[art ''L1'' ''2024-01-02'']"] ok1 ab
  have "save_data (str ''t1'') [art ''L1'' ''2024-01-02''] no_files =
     (no_files\<lparr>news_data_json := Snapshot (new_snapshot (str ''t1'') [art ''L1'' ''2024-01-02'']),
        news_history_json :=
          Document \<lparr>history_articles =
                      Some (Entries (map Entry (take 50 [art ''L1'' ''2024-01-02'']))),
                    history_lastUpdated = Some (str ''t1''),
                    history_totalArticles = Some (length (take 50 [art ''L1'' ''2024-01-02'']))\<rparr>\<rparr>,
      None)"
    by blast
  then have a: "save_data (str ''t1'') [art ''L1'' ''2024-01-02''] no_files =
     (no_files\<lparr>news_data_json := Snapshot (new_snapshot (str ''t1'') [art ''L1'' ''2024-01-02'']),
        news_history_json :=
          Document \<lparr>history_articles = Some (Entries [Entry (art ''L1'' ''2024-01-02'')]),
                    history_lastUpdated = Some (str ''t1''),
                    history_totalArticles = Some 1\<rparr>\<rparr>, None)"
    by simp
  from save_data_absent_history [of corrupt_files "str ''t1''" "[art ''L1'' ''2024-01-02'']"]
    ok2 co
  have b: "save_data (str ''t1'') [art ''L1'' ''2024-01-02''] corrupt_files =
     (corrupt_files\<lparr>news_data_json :=
        Snapshot (new_snapshot (str ''t1'') [art ''L1'' ''2024-01-02''])\<rparr>, Some JSONDecodeError)"
    by blast
  from a b show ?thesis by (rule conjI)
qed

text \<open>
  C9. Whatever \<open>save_data\<close> does, the snapshot file is afterwards as it was or cut off
  (and an exception was raised), or holds the input articles with \<open>totalArticles\<close>
  equal to their number; and the history file is as it was or cut off (and an
  exception was raised), or holds a list of at most 50 articles with \<open>totalArticles\<close>
  equal to its length. When no exception is raised both documents have been written;
  and none is raised from a history that is a list of articles when both files can
  be written and every string can be encoded.
\<close>

theorem save_data_total_articles:
  "(\<forall>fs' e. save_data now arts fs = (fs', e) \<longrightarrow>
      (news_data_json fs' = news_data_json fs \<and> e \<noteq> None \<or>
       news_data_json fs' = Cut_off \<and> e \<noteq> None \<or>
       (\<exists>d. news_data_json fs' = Snapshot d \<and> articles d = arts \<and>
          totalArticles (stats d) = length (articles d))) \<and>
      (news_history_json fs' = news_history_json fs \<and> e \<noteq> None \<or>
       news_history_json fs' = Malformed \<and> e \<noteq> None \<or>
       (\<exists>h es. news_history_json fs' = Document h \<and> history_articles h = Some (Entries es) \<and>
          history_totalArticles h = Some (length es) \<and> length es \<le> 50 \<and> e = None)) \<and>
      (e = None \<longrightarrow>
         (\<exists>d. news_data_json fs' = Snapshot d \<and> articles d = arts \<and>
            totalArticles (stats d) = length (articles d)))) \<and>
   (\<forall>old. holds_history (news_history_json fs) old \<and> news_data_disk fs = Disk_ok \<and>
      news_history_disk fs = Disk_ok \<and> encodable now \<and> list_all article_encodable arts \<and>
      list_all article_encodable old \<longrightarrow> snd (save_data now arts fs) = None)"
proof -
  have counted: "\<exists>h' es. Document (merge_history now arts h (map Entry old) (map link old)) =
      Document h' \<and> history_articles h' = Some (Entries es) \<and>
      history_totalArticles h' = Some (length es) \<and> length es \<le> 50" for h old
    by (simp add: merge_history_fields)
  have snap: "\<exists>d. Snapshot (new_snapshot now arts) = Snapshot d \<and> articles d = arts \<and>
      totalArticles (stats d) = length (articles d)"
    by (simp add: new_snapshot_fields)
  have a: "(news_data_json fs' = news_data_json fs \<and> e \<noteq> None \<or>
       news_data_json fs' = Cut_off \<and> e \<noteq> None \<or>
       (\<exists>d. news_data_json fs' = Snapshot d \<and> articles d = arts \<and>
          totalArticles (stats d) = length (articles d))) \<and>
      (news_history_json fs' = news_history_json fs \<and> e \<noteq> None \<or>
       news_history_json fs' = Malformed \<and> e \<noteq> None \<or>
       (\<exists>h es. news_history_json fs' = Document h \<and> history_articles h = Some (Entries es) \<and>
          history_totalArticles h = Some (length es) \<and> length es \<le> 50 \<and> e = None)) \<and>
      (e = None \<longrightarrow>
         (\<exists>d. news_data_json fs' = Snapshot d \<and> articles d = arts \<and>
            totalArticles (stats d) = length (articles d)))"
    if s: "save_data now arts fs = (fs', e)" for fs' e
  proof -
    from save_data_result [OF s]
    consider "fs' = fs \<and> e \<noteq> None" | "fs' = fs\<lparr>news_data_json := Cut_off\<rparr> \<and> e \<noteq> None"
      | "news_data_json fs' = Snapshot (new_snapshot now arts)"
        "news_history_json fs' = news_history_json fs \<and> e \<noteq> None \<or>
         news_history_json fs' = Malformed \<and> e \<noteq> None"
      | h old where "news_data_json fs' = Snapshot (new_snapshot now arts)"
        "news_history_json fs' =
           Document (merge_history now arts h (map Entry old) (map link old))" "e = None"
      by blast
    then show ?thesis
    proof cases
      case 1
      then show ?thesis by auto
    next
      case 2
      then show ?thesis by auto
    next
      case 3
      with snap show ?thesis by auto
    next
      case 4
      with snap counted [of h old] show ?thesis by auto
    qed
  qed
  have b: "snd (save_data now arts fs) = None"
    if "holds_history (news_history_json fs) old \<and> news_data_disk fs = Disk_ok \<and>
      news_history_disk fs = Disk_ok \<and> encodable now \<and> list_all article_encodable arts \<and>
      list_all article_encodable old" for old
    using save_data_succeeds [of fs old now arts] that by simp
  from a b show ?thesis by blast
qed

theorem save_data_total_articles_witness:
  "snd (save_data (str ''t1'') [art ''L3'' ''2024-01-03'', art ''L1'' ''2024-01-02''] old_files)
     = None \<and>
   (\<exists>d h es. news_data_json (fst (save_data (str ''t1'')
        [art ''L3'' ''2024-01-03'', art ''L1'' ''2024-01-02''] old_files)) = Snapshot d \<and>
      totalArticles (stats d) = length (articles d) \<and>
      news_history_json (fst (save_data (str ''t1'')
        [art ''L3'' ''2024-01-03'', art ''L1'' ''2024-01-02''] old_files)) = Document h \<and>
      history_articles h = Some (Entries es) \<and> history_totalArticles h = Some (length es))"
proof -
  let ?arts = "[art ''L3'' ''2024-01-03'', art ''L1'' ''2024-01-02'']"
  have ok: "holds_history (news_history_json old_files)
        [art ''L1'' ''2024-01-02'', art ''L2'' ''2024-01-01''] \<and>
      news_data_disk old_files = Disk_ok \<and> news_history_disk old_files = Disk_ok \<and>
      encodable (str ''t1'') \<and> list_all article_encodable ?arts \<and>
      list_all article_encodable [art ''L1'' ''2024-01-02'', art ''L2'' ''2024-01-01'']"
    by (simp add: old_files_holds art_encodable encodable_str) (simp add: old_files_def)
  note t = save_data_total_articles [of "str ''t1''" ?arts old_files]
  from t ok have e: "snd (save_data (str ''t1'') ?arts old_files) = None"
    by blast
  obtain fs' where s: "save_data (str ''t1'') ?arts old_files = (fs', None)"
    using e by (cases "save_data (str ''t1'') ?arts old_files") simp
  from t s have "(\<exists>d. news_data_json fs' = Snapshot d \<and>
        totalArticles (stats d) = length (articles d)) \<and>
      (\<exists>h es. news_history_json fs' = Document h \<and> history_articles h = Some (Entries es) \<and>
        history_totalArticles h = Some (length es))"
    by blast
  with e s show ?thesis by auto
qed

end
